theory Spec2Isabelle
  imports Main "HOL-Library.Word" "HOL-Library.Monad_Syntax"
begin

unbundle bit_operations_syntax

section \<open>The AES-GCM-SIV native boundary\<close>

text \<open>
  The development embeds the two implementations of the C interface declared in
  \<^verbatim>\<open>src/Native/aesgcmsiv.h\<close>: the test double of \<^verbatim>\<open>mock_aesgcmsiv.cpp\<close> and
  the OpenSSL adapter of \<^verbatim>\<open>aesgcmsiv.cpp\<close>.

  A \<^verbatim>\<open>uint8_t\<close> is an \<open>8 word\<close>, a \<^verbatim>\<open>size_t\<close> a \<open>64 word\<close> (an LP64 or LLP64
  platform). A pointer argument is
  \<open>None\<close> for the null pointer and \<open>Some bs\<close> for a pointer to a region whose bytes
  are \<open>bs\<close>; the length arguments stay separate arguments, as in C. The regions
  behind distinct pointer arguments are taken to be disjoint. A function that writes
  through a pointer returns the region as it is after the call.
\<close>

type_synonym byte = "8 word"
type_synonym size_t = "64 word"
type_synonym ptr = "byte list option"

subsection \<open>Constants of the header\<close>

definition AESGCMSIV_SUCCESS :: int where
  "AESGCMSIV_SUCCESS = 0"

definition AESGCMSIV_ERROR_INVALID_KEY :: int where
  "AESGCMSIV_ERROR_INVALID_KEY = - 1"

definition AESGCMSIV_ERROR_INVALID_NONCE :: int where
  "AESGCMSIV_ERROR_INVALID_NONCE = - 2"

definition AESGCMSIV_ERROR_INVALID_INPUT :: int where
  "AESGCMSIV_ERROR_INVALID_INPUT = - 3"

definition AESGCMSIV_ERROR_INVALID_TAG :: int where
  "AESGCMSIV_ERROR_INVALID_TAG = - 4"

definition AESGCMSIV_ERROR_DECRYPT_FAILED :: int where
  "AESGCMSIV_ERROR_DECRYPT_FAILED = - 5"

definition AESGCMSIV_ERROR_INTERNAL :: int where
  "AESGCMSIV_ERROR_INTERNAL = - 6"

definition AESGCMSIV_KEY_SIZE :: nat where
  "AESGCMSIV_KEY_SIZE = 32"

definition AESGCMSIV_NONCE_SIZE :: nat where
  "AESGCMSIV_NONCE_SIZE = 12"

definition AESGCMSIV_TAG_SIZE :: nat where
  "AESGCMSIV_TAG_SIZE = 16"

subsection \<open>Memory accesses\<close>

text \<open>
  An access outside the region a pointer refers to is undefined behaviour in C. The
  model makes it a value: \<open>None\<close>, which every later step propagates.
\<close>

definition load :: "byte list \<Rightarrow> nat \<Rightarrow> byte option" where
  "load buf i = (if i < length buf then Some (buf ! i) else None)"

definition store :: "byte list \<Rightarrow> nat \<Rightarrow> byte \<Rightarrow> byte list option" where
  "store buf i v = (if i < length buf then Some (buf[i := v]) else None)"

subsection \<open>The test double\<close>

text \<open>
  The loop of lines 32-34 and, with the roles of plaintext and ciphertext exchanged,
  of lines 67-69 of \<^verbatim>\<open>mock_aesgcmsiv.cpp\<close>:
  \<^verbatim>\<open>for (size_t i = 0; i < len; i++) dst[i] = src[i] ^ (key[i % 32]) ^ (nonce[i % 12]);\<close>
\<close>

function xor_loop :: "byte list \<Rightarrow> byte list \<Rightarrow> byte list \<Rightarrow> nat \<Rightarrow> nat \<Rightarrow> byte list \<Rightarrow> byte list option" where
  "xor_loop key nonce src len i dst =
     (if i < len then
        do {
          s \<leftarrow> load src i;
          k \<leftarrow> load key (i mod 32);
          c \<leftarrow> load nonce (i mod 12);
          dst' \<leftarrow> store dst i ((s XOR k) XOR c);
          xor_loop key nonce src len (i + 1) dst'
        }
      else Some dst)"
  by pat_completeness auto
termination
  by (relation "measure (\<lambda>(key, nonce, src, len, i, dst). len - i)") auto

declare xor_loop.simps [simp del]

text \<open>
  The tag byte \<^verbatim>\<open>(key[i] + nonce[i % 12] + len) & 0xFF\<close>. The two bytes are promoted
  to \<^verbatim>\<open>int\<close> and added there (at most 510), the sum is converted to \<^verbatim>\<open>size_t\<close> and
  added to the length modulo \<open>2 ^ 64\<close>; the result is masked and narrowed to a byte.
\<close>

definition tag_byte :: "byte \<Rightarrow> byte \<Rightarrow> size_t \<Rightarrow> byte" where
  "tag_byte k c len = ucast (((word_of_int (uint k + uint c) :: size_t) + len) AND 0xFF)"

text \<open>The loop of lines 37-39: it writes the sixteen tag bytes.\<close>

function tag_loop :: "byte list \<Rightarrow> byte list \<Rightarrow> size_t \<Rightarrow> nat \<Rightarrow> byte list \<Rightarrow> byte list option" where
  "tag_loop key nonce len i dst =
     (if i < AESGCMSIV_TAG_SIZE then
        do {
          k \<leftarrow> load key i;
          c \<leftarrow> load nonce (i mod 12);
          dst' \<leftarrow> store dst i (tag_byte k c len);
          tag_loop key nonce len (i + 1) dst'
        }
      else Some dst)"
  by pat_completeness auto
termination
  by (relation "measure (\<lambda>(key, nonce, len, i, dst). AESGCMSIV_TAG_SIZE - i)") auto

declare tag_loop.simps [simp del]

text \<open>
  The loop of lines 72-77: \<open>Some False\<close> is the early return of
  \<^verbatim>\<open>AESGCMSIV_ERROR_DECRYPT_FAILED\<close> at the first differing byte, \<open>Some True\<close> the
  normal end of the loop.
\<close>

function tag_check_loop :: "byte list \<Rightarrow> byte list \<Rightarrow> size_t \<Rightarrow> byte list \<Rightarrow> nat \<Rightarrow> bool option" where
  "tag_check_loop key nonce len tag i =
     (if i < AESGCMSIV_TAG_SIZE then
        do {
          k \<leftarrow> load key i;
          c \<leftarrow> load nonce (i mod 12);
          t \<leftarrow> load tag i;
          if t \<noteq> tag_byte k c len then Some False
          else tag_check_loop key nonce len tag (i + 1)
        }
      else Some True)"
  by pat_completeness auto
termination
  by (relation "measure (\<lambda>(key, nonce, len, tag, i). AESGCMSIV_TAG_SIZE - i)") auto

declare tag_check_loop.simps [simp del]

text \<open>
  \<^verbatim>\<open>aesgcmsiv_encrypt\<close> of \<^verbatim>\<open>mock_aesgcmsiv.cpp\<close>. The result is the return value
  with the regions behind \<^verbatim>\<open>ciphertext_out\<close> and \<^verbatim>\<open>tag_out\<close> after the call.
\<close>

definition mock_aesgcmsiv_encrypt ::
  "ptr \<Rightarrow> size_t \<Rightarrow> ptr \<Rightarrow> size_t \<Rightarrow> ptr \<Rightarrow> size_t \<Rightarrow> ptr \<Rightarrow> size_t \<Rightarrow> ptr \<Rightarrow> ptr
     \<Rightarrow> (int \<times> ptr \<times> ptr) option" where
  "mock_aesgcmsiv_encrypt key key_len nonce nonce_len plaintext plaintext_len aad aad_len
       ciphertext_out tag_out =
     (if key = None \<or> unat key_len \<noteq> AESGCMSIV_KEY_SIZE then
        Some (AESGCMSIV_ERROR_INVALID_KEY, ciphertext_out, tag_out)
      else if nonce = None \<or> unat nonce_len \<noteq> AESGCMSIV_NONCE_SIZE then
        Some (AESGCMSIV_ERROR_INVALID_NONCE, ciphertext_out, tag_out)
      else if plaintext = None \<or> ciphertext_out = None \<or> tag_out = None then
        Some (AESGCMSIV_ERROR_INVALID_INPUT, ciphertext_out, tag_out)
      else if aad \<noteq> None \<and> aad_len = 0 then
        Some (AESGCMSIV_ERROR_INVALID_INPUT, ciphertext_out, tag_out)
      else
        do {
          c \<leftarrow> xor_loop (the key) (the nonce) (the plaintext) (unat plaintext_len) 0
                 (the ciphertext_out);
          t \<leftarrow> tag_loop (the key) (the nonce) plaintext_len 0 (the tag_out);
          Some (AESGCMSIV_SUCCESS, Some c, Some t)
        })"

text \<open>
  \<^verbatim>\<open>aesgcmsiv_decrypt\<close> of \<^verbatim>\<open>mock_aesgcmsiv.cpp\<close>. The result is the return value
  with the region behind \<^verbatim>\<open>plaintext_out\<close> after the call. The bytes are written
  before the tag is compared, so the region is the transformed one on both exits of
  the tag loop.
\<close>

definition mock_aesgcmsiv_decrypt ::
  "ptr \<Rightarrow> size_t \<Rightarrow> ptr \<Rightarrow> size_t \<Rightarrow> ptr \<Rightarrow> size_t \<Rightarrow> ptr \<Rightarrow> size_t \<Rightarrow> ptr \<Rightarrow> ptr
     \<Rightarrow> (int \<times> ptr) option" where
  "mock_aesgcmsiv_decrypt key key_len nonce nonce_len ciphertext ciphertext_len aad aad_len
       tag plaintext_out =
     (if key = None \<or> unat key_len \<noteq> AESGCMSIV_KEY_SIZE then
        Some (AESGCMSIV_ERROR_INVALID_KEY, plaintext_out)
      else if nonce = None \<or> unat nonce_len \<noteq> AESGCMSIV_NONCE_SIZE then
        Some (AESGCMSIV_ERROR_INVALID_NONCE, plaintext_out)
      else if ciphertext = None \<or> tag = None \<or> plaintext_out = None then
        Some (AESGCMSIV_ERROR_INVALID_INPUT, plaintext_out)
      else if aad \<noteq> None \<and> aad_len = 0 then
        Some (AESGCMSIV_ERROR_INVALID_INPUT, plaintext_out)
      else
        do {
          p \<leftarrow> xor_loop (the key) (the nonce) (the ciphertext) (unat ciphertext_len) 0
                 (the plaintext_out);
          ok \<leftarrow> tag_check_loop (the key) (the nonce) ciphertext_len (the tag) 0;
          Some (if ok then AESGCMSIV_SUCCESS else AESGCMSIV_ERROR_DECRYPT_FAILED, Some p)
        })"

subsection \<open>The OpenSSL adapter\<close>

text \<open>
  OpenSSL is not part of the repository, so the calls \<^verbatim>\<open>aesgcmsiv.cpp\<close> makes into it
  are parameters of the model: a record with one field for each call. A field returns
  the call's return value together with the cipher context and the output region as
  the call leaves them; a pointer result is \<open>None\<close> when the call returns null. The
  calls that free a context or a cipher have no result and are left out.
\<close>

record ('ctx, 'cipher) evp =
  EVP_CIPHER_CTX_new :: "'ctx option"
  EVP_CIPHER_fetch :: "'cipher option"
  EVP_EncryptInit_ex2 :: "'ctx \<Rightarrow> 'cipher \<Rightarrow> ptr \<Rightarrow> ptr \<Rightarrow> int \<times> 'ctx"
  EVP_EncryptUpdate :: "'ctx \<Rightarrow> ptr \<Rightarrow> ptr \<Rightarrow> int \<Rightarrow> int \<times> 'ctx \<times> ptr"
  EVP_EncryptFinal_ex :: "'ctx \<Rightarrow> int \<times> 'ctx"
  EVP_CTRL_AEAD_GET_TAG :: "'ctx \<Rightarrow> nat \<Rightarrow> ptr \<Rightarrow> int \<times> 'ctx \<times> ptr"
  EVP_DecryptInit_ex2 :: "'ctx \<Rightarrow> 'cipher \<Rightarrow> ptr \<Rightarrow> ptr \<Rightarrow> int \<times> 'ctx"
  EVP_DecryptUpdate :: "'ctx \<Rightarrow> ptr \<Rightarrow> ptr \<Rightarrow> int \<Rightarrow> int \<times> 'ctx \<times> ptr"
  EVP_CTRL_AEAD_SET_TAG :: "'ctx \<Rightarrow> nat \<Rightarrow> ptr \<Rightarrow> int \<times> 'ctx"
  EVP_DecryptFinal_ex :: "'ctx \<Rightarrow> int \<times> 'ctx"

text \<open>\<^verbatim>\<open>static_cast<int>\<close> of a \<^verbatim>\<open>size_t\<close>: the low 32 bits, read as two's complement.\<close>

definition size_t_to_int :: "size_t \<Rightarrow> int" where
  "size_t_to_int n = sint (ucast n :: 32 word)"

definition validate_encrypt_params ::
  "ptr \<Rightarrow> size_t \<Rightarrow> ptr \<Rightarrow> size_t \<Rightarrow> ptr \<Rightarrow> size_t \<Rightarrow> ptr \<Rightarrow> size_t \<Rightarrow> ptr \<Rightarrow> ptr \<Rightarrow> int" where
  "validate_encrypt_params key key_len nonce nonce_len plaintext plaintext_len aad aad_len
       ciphertext_out tag_out =
     (if key = None \<or> unat key_len \<noteq> AESGCMSIV_KEY_SIZE then AESGCMSIV_ERROR_INVALID_KEY
      else if nonce = None \<or> unat nonce_len \<noteq> AESGCMSIV_NONCE_SIZE then
        AESGCMSIV_ERROR_INVALID_NONCE
      else if plaintext = None \<or> ciphertext_out = None \<or> tag_out = None then
        AESGCMSIV_ERROR_INVALID_INPUT
      else AESGCMSIV_SUCCESS)"

definition validate_decrypt_params ::
  "ptr \<Rightarrow> size_t \<Rightarrow> ptr \<Rightarrow> size_t \<Rightarrow> ptr \<Rightarrow> size_t \<Rightarrow> ptr \<Rightarrow> size_t \<Rightarrow> ptr \<Rightarrow> ptr \<Rightarrow> int" where
  "validate_decrypt_params key key_len nonce nonce_len ciphertext ciphertext_len aad aad_len
       tag plaintext_out =
     (if key = None \<or> unat key_len \<noteq> AESGCMSIV_KEY_SIZE then AESGCMSIV_ERROR_INVALID_KEY
      else if nonce = None \<or> unat nonce_len \<noteq> AESGCMSIV_NONCE_SIZE then
        AESGCMSIV_ERROR_INVALID_NONCE
      else if ciphertext = None \<or> tag = None \<or> plaintext_out = None then
        AESGCMSIV_ERROR_INVALID_INPUT
      else AESGCMSIV_SUCCESS)"

text \<open>
  Lines 65-115 of \<^verbatim>\<open>aesgcmsiv.cpp\<close>, the part of \<^verbatim>\<open>aesgcmsiv_encrypt\<close> after the
  validation. The result is the return value with the regions behind
  \<^verbatim>\<open>ciphertext_out\<close> and \<^verbatim>\<open>tag_out\<close>.
\<close>

definition encrypt_engine ::
  "('ctx, 'cipher) evp \<Rightarrow> ptr \<Rightarrow> ptr \<Rightarrow> ptr \<Rightarrow> size_t \<Rightarrow> ptr \<Rightarrow> size_t \<Rightarrow> ptr \<Rightarrow> ptr
     \<Rightarrow> int \<times> ptr \<times> ptr" where
  "encrypt_engine ossl key nonce plaintext plaintext_len aad aad_len ciphertext_out tag_out =
     (case EVP_CIPHER_CTX_new ossl of
        None \<Rightarrow> (AESGCMSIV_ERROR_INTERNAL, ciphertext_out, tag_out)
      | Some ctx \<Rightarrow>
     (case EVP_CIPHER_fetch ossl of
        None \<Rightarrow> (AESGCMSIV_ERROR_INTERNAL, ciphertext_out, tag_out)
      | Some cipher \<Rightarrow>
     (case EVP_EncryptInit_ex2 ossl ctx cipher key nonce of (r1, ctx1) \<Rightarrow>
      if r1 \<noteq> 1 then (AESGCMSIV_ERROR_INTERNAL, ciphertext_out, tag_out)
      else
     (case (if aad \<noteq> None \<and> 0 < aad_len then
              (case EVP_EncryptUpdate ossl ctx1 None aad (size_t_to_int aad_len) of
                 (r, ctx', _) \<Rightarrow> (r, ctx'))
            else (1, ctx1)) of (r2, ctx2) \<Rightarrow>
      if r2 \<noteq> 1 then (AESGCMSIV_ERROR_INTERNAL, ciphertext_out, tag_out)
      else
     (case EVP_EncryptUpdate ossl ctx2 ciphertext_out plaintext (size_t_to_int plaintext_len) of
        (r3, ctx3, ciphertext') \<Rightarrow>
      if r3 \<noteq> 1 then (AESGCMSIV_ERROR_INTERNAL, ciphertext', tag_out)
      else
     (case EVP_EncryptFinal_ex ossl ctx3 of (r4, ctx4) \<Rightarrow>
      if r4 \<noteq> 1 then (AESGCMSIV_ERROR_INTERNAL, ciphertext', tag_out)
      else
     (case EVP_CTRL_AEAD_GET_TAG ossl ctx4 AESGCMSIV_TAG_SIZE tag_out of (r5, ctx5, tag') \<Rightarrow>
      if r5 \<noteq> 1 then (AESGCMSIV_ERROR_INTERNAL, ciphertext', tag')
      else (AESGCMSIV_SUCCESS, ciphertext', tag'))))))))"

text \<open>\<^verbatim>\<open>aesgcmsiv_encrypt\<close> of \<^verbatim>\<open>aesgcmsiv.cpp\<close>.\<close>

definition aesgcmsiv_encrypt ::
  "('ctx, 'cipher) evp \<Rightarrow> ptr \<Rightarrow> size_t \<Rightarrow> ptr \<Rightarrow> size_t \<Rightarrow> ptr \<Rightarrow> size_t \<Rightarrow> ptr \<Rightarrow> size_t
     \<Rightarrow> ptr \<Rightarrow> ptr \<Rightarrow> int \<times> ptr \<times> ptr" where
  "aesgcmsiv_encrypt ossl key key_len nonce nonce_len plaintext plaintext_len aad aad_len
       ciphertext_out tag_out =
     (let validation_result =
            validate_encrypt_params key key_len nonce nonce_len plaintext plaintext_len
              aad aad_len ciphertext_out tag_out
      in if validation_result \<noteq> AESGCMSIV_SUCCESS then
           (validation_result, ciphertext_out, tag_out)
         else encrypt_engine ossl key nonce plaintext plaintext_len aad aad_len
                ciphertext_out tag_out)"

text \<open>
  Lines 134-184 of \<^verbatim>\<open>aesgcmsiv.cpp\<close>, the part of \<^verbatim>\<open>aesgcmsiv_decrypt\<close> after the
  validation. The result is the return value with the region behind
  \<^verbatim>\<open>plaintext_out\<close>.
\<close>

definition decrypt_engine ::
  "('ctx, 'cipher) evp \<Rightarrow> ptr \<Rightarrow> ptr \<Rightarrow> ptr \<Rightarrow> size_t \<Rightarrow> ptr \<Rightarrow> size_t \<Rightarrow> ptr \<Rightarrow> ptr
     \<Rightarrow> int \<times> ptr" where
  "decrypt_engine ossl key nonce ciphertext ciphertext_len aad aad_len tag plaintext_out =
     (case EVP_CIPHER_CTX_new ossl of
        None \<Rightarrow> (AESGCMSIV_ERROR_INTERNAL, plaintext_out)
      | Some ctx \<Rightarrow>
     (case EVP_CIPHER_fetch ossl of
        None \<Rightarrow> (AESGCMSIV_ERROR_INTERNAL, plaintext_out)
      | Some cipher \<Rightarrow>
     (case EVP_DecryptInit_ex2 ossl ctx cipher key nonce of (r1, ctx1) \<Rightarrow>
      if r1 \<noteq> 1 then (AESGCMSIV_ERROR_INTERNAL, plaintext_out)
      else
     (case (if aad \<noteq> None \<and> 0 < aad_len then
              (case EVP_DecryptUpdate ossl ctx1 None aad (size_t_to_int aad_len) of
                 (r, ctx', _) \<Rightarrow> (r, ctx'))
            else (1, ctx1)) of (r2, ctx2) \<Rightarrow>
      if r2 \<noteq> 1 then (AESGCMSIV_ERROR_INTERNAL, plaintext_out)
      else
     (case EVP_CTRL_AEAD_SET_TAG ossl ctx2 AESGCMSIV_TAG_SIZE tag of (r3, ctx3) \<Rightarrow>
      if r3 \<noteq> 1 then (AESGCMSIV_ERROR_INVALID_TAG, plaintext_out)
      else
     (case EVP_DecryptUpdate ossl ctx3 plaintext_out ciphertext (size_t_to_int ciphertext_len) of
        (r4, ctx4, plaintext') \<Rightarrow>
      if r4 \<noteq> 1 then (AESGCMSIV_ERROR_DECRYPT_FAILED, plaintext')
      else
     (case EVP_DecryptFinal_ex ossl ctx4 of (r5, ctx5) \<Rightarrow>
      if r5 \<noteq> 1 then (AESGCMSIV_ERROR_DECRYPT_FAILED, plaintext')
      else (AESGCMSIV_SUCCESS, plaintext'))))))))"

text \<open>\<^verbatim>\<open>aesgcmsiv_decrypt\<close> of \<^verbatim>\<open>aesgcmsiv.cpp\<close>.\<close>

definition aesgcmsiv_decrypt ::
  "('ctx, 'cipher) evp \<Rightarrow> ptr \<Rightarrow> size_t \<Rightarrow> ptr \<Rightarrow> size_t \<Rightarrow> ptr \<Rightarrow> size_t \<Rightarrow> ptr \<Rightarrow> size_t
     \<Rightarrow> ptr \<Rightarrow> ptr \<Rightarrow> int \<times> ptr" where
  "aesgcmsiv_decrypt ossl key key_len nonce nonce_len ciphertext ciphertext_len aad aad_len
       tag plaintext_out =
     (let validation_result =
            validate_decrypt_params key key_len nonce nonce_len ciphertext ciphertext_len
              aad aad_len tag plaintext_out
      in if validation_result \<noteq> AESGCMSIV_SUCCESS then (validation_result, plaintext_out)
         else decrypt_engine ossl key nonce ciphertext ciphertext_len aad aad_len
                tag plaintext_out)"

subsection \<open>Notions of the specification\<close>

text \<open>
  The ordered precondition checks as the specification words them: the key must be
  present and 32 bytes long, else \<open>InvalidKey\<close>; then the nonce must be present and
  12 bytes long, else \<open>InvalidNonce\<close>; then the three required buffers must be present,
  else \<open>InvalidInput\<close>. The result is the error of the first failing check, \<open>None\<close>
  when all three pass.
\<close>

definition first_failing_check ::
  "ptr \<Rightarrow> size_t \<Rightarrow> ptr \<Rightarrow> size_t \<Rightarrow> ptr \<Rightarrow> ptr \<Rightarrow> ptr \<Rightarrow> int option" where
  "first_failing_check key key_len nonce nonce_len buf1 buf2 buf3 =
     (if \<not> (key \<noteq> None \<and> key_len = 32) then Some AESGCMSIV_ERROR_INVALID_KEY
      else if \<not> (nonce \<noteq> None \<and> nonce_len = 12) then Some AESGCMSIV_ERROR_INVALID_NONCE
      else if \<not> (buf1 \<noteq> None \<and> buf2 \<noteq> None \<and> buf3 \<noteq> None) then
        Some AESGCMSIV_ERROR_INVALID_INPUT
      else None)"

text \<open>Tampering: byte \<open>j\<close> of a byte sequence with its bit \<open>b\<close> inverted.\<close>

definition flip_bit_at :: "byte list \<Rightarrow> nat \<Rightarrow> nat \<Rightarrow> byte list" where
  "flip_bit_at bs j b = bs[j := flip_bit b (bs ! j)]"

subsection \<open>Notation for the results\<close>

text \<open>
  The byte the first loop of the test double stores at index \<open>j\<close>, and the byte its
  tag loops store or expect at index \<open>j\<close>.
\<close>

definition transform :: "byte list \<Rightarrow> byte list \<Rightarrow> byte list \<Rightarrow> nat \<Rightarrow> byte" where
  "transform key nonce src j = (src ! j XOR key ! (j mod 32)) XOR nonce ! (j mod 12)"

definition expected_tag :: "byte list \<Rightarrow> byte list \<Rightarrow> size_t \<Rightarrow> nat \<Rightarrow> byte" where
  "expected_tag key nonce len j = tag_byte (key ! j) (nonce ! (j mod 12)) len"

subsection \<open>Example arguments\<close>

text \<open>
  A key, a nonce and the plaintext \<^verbatim>\<open>hello\<close>, with the ciphertext and the tag the test
  double computes for them. They instantiate the theorems below.
\<close>

definition test_key :: "byte list" where
  "test_key = replicate 32 1"

definition test_nonce :: "byte list" where
  "test_nonce = replicate 12 2"

definition test_plaintext :: "byte list" where
  "test_plaintext = [104, 101, 108, 108, 111]"

definition test_ciphertext :: "byte list" where
  "test_ciphertext = [107, 102, 111, 111, 108]"

definition test_tag :: "byte list" where
  "test_tag = replicate 16 8"


text \<open>An OpenSSL in which no cipher context can be allocated and every call fails.\<close>

definition no_openssl :: "(unit, unit) evp" where
  "no_openssl =
     \<lparr>EVP_CIPHER_CTX_new = None,
      EVP_CIPHER_fetch = None,
      EVP_EncryptInit_ex2 = (\<lambda>ctx cipher key nonce. (0, ctx)),
      EVP_EncryptUpdate = (\<lambda>ctx out inp inl. (0, ctx, out)),
      EVP_EncryptFinal_ex = (\<lambda>ctx. (0, ctx)),
      EVP_CTRL_AEAD_GET_TAG = (\<lambda>ctx len tag. (0, ctx, tag)),
      EVP_DecryptInit_ex2 = (\<lambda>ctx cipher key nonce. (0, ctx)),
      EVP_DecryptUpdate = (\<lambda>ctx out inp inl. (0, ctx, out)),
      EVP_CTRL_AEAD_SET_TAG = (\<lambda>ctx len tag. (0, ctx)),
      EVP_DecryptFinal_ex = (\<lambda>ctx. (0, ctx))\<rparr>"

text \<open>
  An OpenSSL that honours the length it is given: every call succeeds, and an update
  copies the first \<open>inl\<close> bytes of its input to the front of its output buffer (the
  identity cipher). The tag calls leave the tag buffer as it is.
\<close>

definition copy_openssl :: "(unit, unit) evp" where
  "copy_openssl =
     \<lparr>EVP_CIPHER_CTX_new = Some (),
      EVP_CIPHER_fetch = Some (),
      EVP_EncryptInit_ex2 = (\<lambda>ctx cipher key nonce. (1, ctx)),
      EVP_EncryptUpdate = (\<lambda>ctx out inp inl.
         (1, ctx,
          case out of None \<Rightarrow> None
          | Some ob \<Rightarrow>
              (case inp of None \<Rightarrow> Some ob
               | Some ib \<Rightarrow> Some (take (nat inl) ib @ drop (min (nat inl) (length ib)) ob)))),
      EVP_EncryptFinal_ex = (\<lambda>ctx. (1, ctx)),
      EVP_CTRL_AEAD_GET_TAG = (\<lambda>ctx len tag. (1, ctx, tag)),
      EVP_DecryptInit_ex2 = (\<lambda>ctx cipher key nonce. (1, ctx)),
      EVP_DecryptUpdate = (\<lambda>ctx out inp inl.
         (1, ctx,
          case out of None \<Rightarrow> None
          | Some ob \<Rightarrow>
              (case inp of None \<Rightarrow> Some ob
               | Some ib \<Rightarrow> Some (take (nat inl) ib @ drop (min (nat inl) (length ib)) ob)))),
      EVP_CTRL_AEAD_SET_TAG = (\<lambda>ctx len tag. (1, ctx)),
      EVP_DecryptFinal_ex = (\<lambda>ctx. (1, ctx))\<rparr>"

section \<open>Properties of the loops\<close>

subsection \<open>The tag byte\<close>

lemma ucast_add_down: "(ucast ((a::size_t) + b) :: byte) = ucast a + ucast b"
proof (rule word_uint_eqI)
  have "uint (ucast (a + b) :: byte) = take_bit 8 (take_bit 64 (uint a + uint b))"
    by (simp add: unsigned_ucast_eq uint_word_ariths take_bit_eq_mod)
  also have "\<dots> = take_bit 8 (uint a + uint b)"
    by simp
  also have "\<dots> = take_bit 8 (take_bit 8 (uint a) + take_bit 8 (uint b))"
    by (simp only: take_bit_add)
  also have "\<dots> = uint ((ucast a :: byte) + ucast b)"
    by (simp add: unsigned_ucast_eq uint_word_ariths take_bit_eq_mod)
  finally show "uint (ucast (a + b) :: byte) = uint ((ucast a :: byte) + ucast b)" .
qed

lemma ucast_byte_roundtrip: "(ucast (ucast (k::byte) :: size_t) :: byte) = k"
  by (rule bit_word_eqI) (simp add: bit_simps)

lemma ucast_sum_bytes:
  "(ucast (word_of_int (uint (k::byte) + uint (c::byte)) :: size_t) :: byte) = k + c"
proof -
  have "(word_of_int (uint k + uint c) :: size_t) = ucast k + ucast c"
    by simp
  then have "(ucast (word_of_int (uint k + uint c) :: size_t) :: byte)
               = ucast (ucast k :: size_t) + ucast (ucast c :: size_t)"
    by (simp only: ucast_add_down)
  also have "\<dots> = k + c"
    by (simp only: ucast_byte_roundtrip)
  finally show ?thesis .
qed

lemma tag_byte_eq: "tag_byte k c len = k + c + ucast len"
proof -
  have m: "(0xFF::size_t) = mask 8"
    by (simp add: mask_eq_exp_minus_1)
  have "(ucast (((word_of_int (uint k + uint c) :: size_t) + len) AND 0xFF) :: byte)
        = ucast ((word_of_int (uint k + uint c) :: size_t) + len)"
    unfolding m by (rule bit_word_eqI) (auto simp: bit_simps)
  also have "\<dots> = ucast (word_of_int (uint k + uint c) :: size_t) + ucast len"
    by (rule ucast_add_down)
  also have "ucast (word_of_int (uint k + uint c) :: size_t) = k + c"
    by (rule ucast_sum_bytes)
  finally show ?thesis
    by (simp only: tag_byte_def)
qed

subsection \<open>What the loops compute, and when they stay inside the regions\<close>

lemma xor_loop_done: "\<not> i < len \<Longrightarrow> xor_loop key nonce src len i dst = Some dst"
  by (subst xor_loop.simps) simp

lemma xor_loop_step:
  "i < len \<Longrightarrow> i < length src \<Longrightarrow> i mod 32 < length key \<Longrightarrow> i mod 12 < length nonce \<Longrightarrow>
   i < length dst \<Longrightarrow>
     xor_loop key nonce src len i dst =
       xor_loop key nonce src len (i + 1)
         (dst[i := transform key nonce src i])"
  by (subst xor_loop.simps) (simp add: load_def store_def transform_def expected_tag_def)

lemma xor_loop_in_bounds:
  "i < len \<Longrightarrow> xor_loop key nonce src len i dst = Some r \<Longrightarrow>
     i < length src \<and> i mod 32 < length key \<and> i mod 12 < length nonce \<and> i < length dst"
  by (subst (asm) xor_loop.simps) (auto simp: load_def store_def split: if_splits bind_splits)

lemma xor_loop_Some:
  "xor_loop key nonce src len i dst = Some r \<Longrightarrow>
     length r = length dst \<and>
     (\<forall>j<length dst. r ! j =
        (if i \<le> j \<and> j < len then transform key nonce src j
         else dst ! j)) \<and>
     (i < len \<longrightarrow> len \<le> length dst \<and> len \<le> length src)"
proof (induction key nonce src len i dst arbitrary: r rule: xor_loop.induct)
  case (1 key nonce src len i dst)
  show ?case
  proof (cases "i < len")
    case False
    with "1.prems" show ?thesis
      by (auto simp: xor_loop_done)
  next
    case True
    let ?d = "dst[i := transform key nonce src i]"
    have b: "i < length src" "i mod 32 < length key" "i mod 12 < length nonce" "i < length dst"
      using xor_loop_in_bounds[OF True "1.prems"] by simp_all
    have r: "xor_loop key nonce src len (i + 1) ?d = Some r"
      using "1.prems" xor_loop_step[OF True b] by simp
    have ih: "length r = length ?d \<and>
       (\<forall>j<length ?d. r ! j =
          (if i + 1 \<le> j \<and> j < len then transform key nonce src j
           else ?d ! j)) \<and>
       (i + 1 < len \<longrightarrow> len \<le> length ?d \<and> len \<le> length src)"
      using "1.IH"[OF True _ _ _ _ r, of "src ! i" "key ! (i mod 32)" "nonce ! (i mod 12)"] b
      by (simp add: load_def store_def transform_def expected_tag_def)
    show ?thesis
      using ih b True by (auto simp: nth_list_update)
  qed
qed

lemma xor_loop_total:
  "len \<le> length src \<Longrightarrow> 32 \<le> length key \<Longrightarrow> 12 \<le> length nonce \<Longrightarrow> len \<le> length dst
     \<Longrightarrow> \<exists>r. xor_loop key nonce src len i dst = Some r"
proof (induction key nonce src len i dst rule: xor_loop.induct)
  case (1 key nonce src len i dst)
  show ?case
  proof (cases "i < len")
    case False
    then show ?thesis
      by (simp add: xor_loop_done)
  next
    case True
    let ?d = "dst[i := transform key nonce src i]"
    have b: "i < length src" "i mod 32 < length key" "i mod 12 < length nonce" "i < length dst"
      using True "1.prems" by (auto intro: less_le_trans[OF mod_less_divisor])
    have "\<exists>r. xor_loop key nonce src len (i + 1) ?d = Some r"
      using "1.IH"[OF True, of "src ! i" "key ! (i mod 32)" "nonce ! (i mod 12)" ?d] b "1.prems"
      by (simp add: load_def store_def transform_def expected_tag_def)
    then show ?thesis
      by (simp add: xor_loop_step[OF True b])
  qed
qed

lemma tag_loop_done: "\<not> i < 16 \<Longrightarrow> tag_loop key nonce len i dst = Some dst"
  by (subst tag_loop.simps) (simp add: AESGCMSIV_TAG_SIZE_def)

lemma tag_loop_step:
  "i < 16 \<Longrightarrow> i < length key \<Longrightarrow> i mod 12 < length nonce \<Longrightarrow> i < length dst \<Longrightarrow>
     tag_loop key nonce len i dst =
       tag_loop key nonce len (i + 1) (dst[i := expected_tag key nonce len i])"
  by (subst tag_loop.simps) (simp add: load_def store_def transform_def expected_tag_def AESGCMSIV_TAG_SIZE_def)

lemma tag_loop_in_bounds:
  "i < 16 \<Longrightarrow> tag_loop key nonce len i dst = Some r \<Longrightarrow>
     i < length key \<and> i mod 12 < length nonce \<and> i < length dst"
  by (subst (asm) tag_loop.simps)
    (auto simp: load_def store_def AESGCMSIV_TAG_SIZE_def split: if_splits bind_splits)

lemma tag_loop_Some:
  "tag_loop key nonce len i dst = Some r \<Longrightarrow>
     length r = length dst \<and>
     (\<forall>j<length dst. r ! j =
        (if i \<le> j \<and> j < 16 then expected_tag key nonce len j else dst ! j)) \<and>
     (i < 16 \<longrightarrow> 16 \<le> length dst)"
proof (induction key nonce len i dst arbitrary: r rule: tag_loop.induct)
  case (1 key nonce len i dst)
  show ?case
  proof (cases "i < 16")
    case False
    with "1.prems" show ?thesis
      by (auto simp: tag_loop_done)
  next
    case True
    then have T: "i < AESGCMSIV_TAG_SIZE"
      by (simp add: AESGCMSIV_TAG_SIZE_def)
    let ?d = "dst[i := expected_tag key nonce len i]"
    have b: "i < length key" "i mod 12 < length nonce" "i < length dst"
      using tag_loop_in_bounds[OF True "1.prems"] by simp_all
    have r: "tag_loop key nonce len (i + 1) ?d = Some r"
      using "1.prems" tag_loop_step[OF True b] by simp
    have ih: "length r = length ?d \<and>
       (\<forall>j<length ?d. r ! j =
          (if i + 1 \<le> j \<and> j < 16 then expected_tag key nonce len j
           else ?d ! j)) \<and>
       (i + 1 < 16 \<longrightarrow> 16 \<le> length ?d)"
      using "1.IH"[OF T _ _ _ r, of "key ! i" "nonce ! (i mod 12)"] b
      by (simp add: load_def store_def transform_def expected_tag_def)
    show ?thesis
      using ih b True by (auto simp: nth_list_update)
  qed
qed

lemma tag_loop_total:
  "16 \<le> length key \<Longrightarrow> 12 \<le> length nonce \<Longrightarrow> 16 \<le> length dst
     \<Longrightarrow> \<exists>r. tag_loop key nonce len i dst = Some r"
proof (induction key nonce len i dst rule: tag_loop.induct)
  case (1 key nonce len i dst)
  show ?case
  proof (cases "i < 16")
    case False
    then show ?thesis
      by (simp add: tag_loop_done)
  next
    case True
    then have T: "i < AESGCMSIV_TAG_SIZE"
      by (simp add: AESGCMSIV_TAG_SIZE_def)
    let ?d = "dst[i := expected_tag key nonce len i]"
    have b: "i < length key" "i mod 12 < length nonce" "i < length dst"
      using True "1.prems" by (auto intro: less_le_trans[OF mod_less_divisor])
    have "\<exists>r. tag_loop key nonce len (i + 1) ?d = Some r"
      using "1.IH"[OF T, of "key ! i" "nonce ! (i mod 12)" ?d] b "1.prems"
      by (simp add: load_def store_def transform_def expected_tag_def)
    then show ?thesis
      by (simp add: tag_loop_step[OF True b])
  qed
qed

lemma tag_check_loop_done: "\<not> i < 16 \<Longrightarrow> tag_check_loop key nonce len tag i = Some True"
  by (subst tag_check_loop.simps) (simp add: AESGCMSIV_TAG_SIZE_def)

lemma tag_check_loop_differ:
  "i < 16 \<Longrightarrow> i < length key \<Longrightarrow> i mod 12 < length nonce \<Longrightarrow> i < length tag \<Longrightarrow>
   tag ! i \<noteq> expected_tag key nonce len i \<Longrightarrow>
     tag_check_loop key nonce len tag i = Some False"
  by (subst tag_check_loop.simps) (simp add: load_def expected_tag_def AESGCMSIV_TAG_SIZE_def)

lemma tag_check_loop_step:
  "i < 16 \<Longrightarrow> i < length key \<Longrightarrow> i mod 12 < length nonce \<Longrightarrow> i < length tag \<Longrightarrow>
   tag ! i = expected_tag key nonce len i \<Longrightarrow>
     tag_check_loop key nonce len tag i = tag_check_loop key nonce len tag (i + 1)"
  by (subst tag_check_loop.simps) (simp add: load_def expected_tag_def AESGCMSIV_TAG_SIZE_def)

lemma tag_check_loop_in_bounds:
  "i < 16 \<Longrightarrow> tag_check_loop key nonce len tag i = Some ok \<Longrightarrow>
     i < length key \<and> i mod 12 < length nonce \<and> i < length tag"
  by (subst (asm) tag_check_loop.simps)
    (auto simp: load_def AESGCMSIV_TAG_SIZE_def split: if_splits bind_splits)

lemma tag_check_loop_Some:
  "tag_check_loop key nonce len tag i = Some ok \<Longrightarrow>
     ok = (\<forall>j. i \<le> j \<and> j < 16 \<longrightarrow> tag ! j = expected_tag key nonce len j)"
proof (induction key nonce len tag i rule: tag_check_loop.induct)
  case (1 key nonce len tag i)
  show ?case
  proof (cases "i < 16")
    case False
    with "1.prems" show ?thesis
      by (auto simp: tag_check_loop_done)
  next
    case True
    then have T: "i < AESGCMSIV_TAG_SIZE"
      by (simp add: AESGCMSIV_TAG_SIZE_def)
    have b: "i < length key" "i mod 12 < length nonce" "i < length tag"
      using tag_check_loop_in_bounds[OF True "1.prems"] by simp_all
    show ?thesis
    proof (cases "tag ! i = expected_tag key nonce len i")
      case False
      have "ok = False"
        using "1.prems" tag_check_loop_differ[OF True b False] by simp
      with False True show ?thesis
        by auto
    next
      case eq: True
      have r: "tag_check_loop key nonce len tag (i + 1) = Some ok"
        using "1.prems" tag_check_loop_step[OF True b eq] by simp
      have "ok = (\<forall>j. i + 1 \<le> j \<and> j < 16 \<longrightarrow>
                     tag ! j = expected_tag key nonce len j)"
        using "1.IH"[OF T _ _ _ _ r, of "key ! i" "nonce ! (i mod 12)" "tag ! i"] b eq
        by (simp add: load_def expected_tag_def)
      moreover have "\<And>j. (i \<le> j) = (j = i \<or> i + 1 \<le> j)"
        by arith
      ultimately show ?thesis
        using eq by auto
    qed
  qed
qed

lemma tag_check_loop_total:
  "16 \<le> length key \<Longrightarrow> 12 \<le> length nonce \<Longrightarrow> 16 \<le> length tag
     \<Longrightarrow> \<exists>ok. tag_check_loop key nonce len tag i = Some ok"
proof (induction key nonce len tag i rule: tag_check_loop.induct)
  case (1 key nonce len tag i)
  show ?case
  proof (cases "i < 16")
    case False
    then show ?thesis
      by (auto simp: tag_check_loop_done)
  next
    case True
    then have T: "i < AESGCMSIV_TAG_SIZE"
      by (simp add: AESGCMSIV_TAG_SIZE_def)
    have b: "i < length key" "i mod 12 < length nonce" "i < length tag"
      using True "1.prems" by (auto intro: less_le_trans[OF mod_less_divisor])
    show ?thesis
    proof (cases "tag ! i = expected_tag key nonce len i")
      case False
      show ?thesis
        by (auto simp: tag_check_loop_differ[OF True b False])
    next
      case eq: True
      have "\<exists>ok. tag_check_loop key nonce len tag (i + 1) = Some ok"
        using "1.IH"[OF T, of "key ! i" "nonce ! (i mod 12)" "tag ! i"] b eq "1.prems"
        by (simp add: load_def expected_tag_def)
      then show ?thesis
        by (simp add: tag_check_loop_step[OF True b eq])
    qed
  qed
qed

section \<open>Properties of the test double\<close>

lemmas status_defs =
  AESGCMSIV_SUCCESS_def AESGCMSIV_ERROR_INVALID_KEY_def AESGCMSIV_ERROR_INVALID_NONCE_def
  AESGCMSIV_ERROR_INVALID_INPUT_def AESGCMSIV_ERROR_INVALID_TAG_def
  AESGCMSIV_ERROR_DECRYPT_FAILED_def AESGCMSIV_ERROR_INTERNAL_def

lemmas size_defs = AESGCMSIV_KEY_SIZE_def AESGCMSIV_NONCE_SIZE_def AESGCMSIV_TAG_SIZE_def


subsection \<open>The branches of the test double\<close>

lemma mock_encrypt_invalid_key:
  "key = None \<or> unat key_len \<noteq> 32 \<Longrightarrow>
     mock_aesgcmsiv_encrypt key key_len nonce nonce_len plaintext plen aad alen ciphertext_out tag_out
       = Some (AESGCMSIV_ERROR_INVALID_KEY, ciphertext_out, tag_out)"
  by (auto simp: mock_aesgcmsiv_encrypt_def size_defs)

lemma mock_encrypt_invalid_nonce:
  "key \<noteq> None \<Longrightarrow> unat key_len = 32 \<Longrightarrow> nonce = None \<or> unat nonce_len \<noteq> 12 \<Longrightarrow>
     mock_aesgcmsiv_encrypt key key_len nonce nonce_len plaintext plen aad alen ciphertext_out tag_out
       = Some (AESGCMSIV_ERROR_INVALID_NONCE, ciphertext_out, tag_out)"
  by (auto simp: mock_aesgcmsiv_encrypt_def size_defs)

lemma mock_encrypt_invalid_input:
  "key \<noteq> None \<Longrightarrow> unat key_len = 32 \<Longrightarrow> nonce \<noteq> None \<Longrightarrow> unat nonce_len = 12 \<Longrightarrow>
   plaintext = None \<or> ciphertext_out = None \<or> tag_out = None \<or> (aad \<noteq> None \<and> alen = 0) \<Longrightarrow>
     mock_aesgcmsiv_encrypt key key_len nonce nonce_len plaintext plen aad alen ciphertext_out tag_out
       = Some (AESGCMSIV_ERROR_INVALID_INPUT, ciphertext_out, tag_out)"
  by (auto simp: mock_aesgcmsiv_encrypt_def size_defs)

lemma mock_encrypt_run:
  "unat key_len = 32 \<Longrightarrow> unat nonce_len = 12 \<Longrightarrow> aad = None \<or> alen \<noteq> 0 \<Longrightarrow>
     mock_aesgcmsiv_encrypt (Some k) key_len (Some n) nonce_len (Some p) plen aad alen (Some c0) (Some t0)
       = do {
           c \<leftarrow> xor_loop k n p (unat plen) 0 c0;
           t \<leftarrow> tag_loop k n plen 0 t0;
           Some (AESGCMSIV_SUCCESS, Some c, Some t)
         }"
  by (auto simp: mock_aesgcmsiv_encrypt_def size_defs)

lemma mock_decrypt_invalid_key:
  "key = None \<or> unat key_len \<noteq> 32 \<Longrightarrow>
     mock_aesgcmsiv_decrypt key key_len nonce nonce_len ciphertext clen aad alen tag plaintext_out
       = Some (AESGCMSIV_ERROR_INVALID_KEY, plaintext_out)"
  by (auto simp: mock_aesgcmsiv_decrypt_def size_defs)

lemma mock_decrypt_invalid_nonce:
  "key \<noteq> None \<Longrightarrow> unat key_len = 32 \<Longrightarrow> nonce = None \<or> unat nonce_len \<noteq> 12 \<Longrightarrow>
     mock_aesgcmsiv_decrypt key key_len nonce nonce_len ciphertext clen aad alen tag plaintext_out
       = Some (AESGCMSIV_ERROR_INVALID_NONCE, plaintext_out)"
  by (auto simp: mock_aesgcmsiv_decrypt_def size_defs)

lemma mock_decrypt_invalid_input:
  "key \<noteq> None \<Longrightarrow> unat key_len = 32 \<Longrightarrow> nonce \<noteq> None \<Longrightarrow> unat nonce_len = 12 \<Longrightarrow>
   ciphertext = None \<or> tag = None \<or> plaintext_out = None \<or> (aad \<noteq> None \<and> alen = 0) \<Longrightarrow>
     mock_aesgcmsiv_decrypt key key_len nonce nonce_len ciphertext clen aad alen tag plaintext_out
       = Some (AESGCMSIV_ERROR_INVALID_INPUT, plaintext_out)"
  by (auto simp: mock_aesgcmsiv_decrypt_def size_defs)

lemma mock_decrypt_run:
  "unat key_len = 32 \<Longrightarrow> unat nonce_len = 12 \<Longrightarrow> aad = None \<or> alen \<noteq> 0 \<Longrightarrow>
     mock_aesgcmsiv_decrypt (Some k) key_len (Some n) nonce_len (Some c) clen aad alen (Some t) (Some p0)
       = do {
           r \<leftarrow> xor_loop k n c (unat clen) 0 p0;
           ok \<leftarrow> tag_check_loop k n clen t 0;
           Some (if ok then AESGCMSIV_SUCCESS else AESGCMSIV_ERROR_DECRYPT_FAILED, Some r)
         }"
  by (auto simp: mock_aesgcmsiv_decrypt_def size_defs)

text \<open>A return value other than the three validation errors means every check has passed.\<close>

lemma mock_encrypt_past_validation:
  assumes "mock_aesgcmsiv_encrypt key key_len nonce nonce_len plaintext plen aad alen ciphertext_out tag_out
             = Some (rc, c', t')"
    and "rc \<noteq> AESGCMSIV_ERROR_INVALID_KEY" "rc \<noteq> AESGCMSIV_ERROR_INVALID_NONCE"
        "rc \<noteq> AESGCMSIV_ERROR_INVALID_INPUT"
  shows "\<exists>k n p c0 t0. key = Some k \<and> nonce = Some n \<and> plaintext = Some p
           \<and> ciphertext_out = Some c0 \<and> tag_out = Some t0
           \<and> unat key_len = 32 \<and> unat nonce_len = 12 \<and> (aad = None \<or> alen \<noteq> 0)"
proof -
  have "\<not> (key = None \<or> unat key_len \<noteq> 32)"
  proof
    assume "key = None \<or> unat key_len \<noteq> 32"
    from mock_encrypt_invalid_key[OF this] assms(1,2) show False
      by simp
  qed
  then have 1: "key \<noteq> None" "unat key_len = 32"
    by simp_all
  have "\<not> (nonce = None \<or> unat nonce_len \<noteq> 12)"
  proof
    assume "nonce = None \<or> unat nonce_len \<noteq> 12"
    from mock_encrypt_invalid_nonce[OF 1 this] assms(1,3) show False
      by simp
  qed
  then have 2: "nonce \<noteq> None" "unat nonce_len = 12"
    by simp_all
  have 3: "\<not> (plaintext = None \<or> ciphertext_out = None \<or> tag_out = None \<or> (aad \<noteq> None \<and> alen = 0))"
  proof
    assume "plaintext = None \<or> ciphertext_out = None \<or> tag_out = None \<or> (aad \<noteq> None \<and> alen = 0)"
    from mock_encrypt_invalid_input[OF 1 2 this] assms(1,4) show False
      by simp
  qed
  from 1 2 3 show ?thesis
    by auto
qed

lemma mock_decrypt_past_validation:
  assumes "mock_aesgcmsiv_decrypt key key_len nonce nonce_len ciphertext clen aad alen tag plaintext_out
             = Some (rc, p')"
    and "rc \<noteq> AESGCMSIV_ERROR_INVALID_KEY" "rc \<noteq> AESGCMSIV_ERROR_INVALID_NONCE"
        "rc \<noteq> AESGCMSIV_ERROR_INVALID_INPUT"
  shows "\<exists>k n c t p0. key = Some k \<and> nonce = Some n \<and> ciphertext = Some c
           \<and> tag = Some t \<and> plaintext_out = Some p0
           \<and> unat key_len = 32 \<and> unat nonce_len = 12 \<and> (aad = None \<or> alen \<noteq> 0)"
proof -
  have "\<not> (key = None \<or> unat key_len \<noteq> 32)"
  proof
    assume "key = None \<or> unat key_len \<noteq> 32"
    from mock_decrypt_invalid_key[OF this] assms(1,2) show False
      by simp
  qed
  then have 1: "key \<noteq> None" "unat key_len = 32"
    by simp_all
  have "\<not> (nonce = None \<or> unat nonce_len \<noteq> 12)"
  proof
    assume "nonce = None \<or> unat nonce_len \<noteq> 12"
    from mock_decrypt_invalid_nonce[OF 1 this] assms(1,3) show False
      by simp
  qed
  then have 2: "nonce \<noteq> None" "unat nonce_len = 12"
    by simp_all
  have 3: "\<not> (ciphertext = None \<or> tag = None \<or> plaintext_out = None \<or> (aad \<noteq> None \<and> alen = 0))"
  proof
    assume "ciphertext = None \<or> tag = None \<or> plaintext_out = None \<or> (aad \<noteq> None \<and> alen = 0)"
    from mock_decrypt_invalid_input[OF 1 2 this] assms(1,4) show False
      by simp
  qed
  from 1 2 3 show ?thesis
    by auto
qed

lemma mock_encrypt_SUCCESS:
  assumes "mock_aesgcmsiv_encrypt key key_len nonce nonce_len plaintext plen aad alen ciphertext_out tag_out
             = Some (AESGCMSIV_SUCCESS, c', t')"
  shows "\<exists>k n p c0 t0 c t. key = Some k \<and> nonce = Some n \<and> plaintext = Some p
           \<and> ciphertext_out = Some c0 \<and> tag_out = Some t0 \<and> c' = Some c \<and> t' = Some t
           \<and> unat key_len = 32 \<and> unat nonce_len = 12 \<and> (aad = None \<or> alen \<noteq> 0)
           \<and> xor_loop k n p (unat plen) 0 c0 = Some c \<and> tag_loop k n plen 0 t0 = Some t"
proof -
  obtain k n p c0 t0 where v: "key = Some k" "nonce = Some n" "plaintext = Some p"
      "ciphertext_out = Some c0" "tag_out = Some t0" "unat key_len = 32" "unat nonce_len = 12"
      "aad = None \<or> alen \<noteq> 0"
    using mock_encrypt_past_validation[OF assms] by (auto simp: status_defs)
  have "do { c \<leftarrow> xor_loop k n p (unat plen) 0 c0; t \<leftarrow> tag_loop k n plen 0 t0;
             Some (AESGCMSIV_SUCCESS, Some c, Some t) } = Some (AESGCMSIV_SUCCESS, c', t')"
    using assms v mock_encrypt_run[of key_len nonce_len aad alen k n p plen c0 t0] by simp
  then obtain c t where "xor_loop k n p (unat plen) 0 c0 = Some c" "tag_loop k n plen 0 t0 = Some t"
      "c' = Some c" "t' = Some t"
    by (auto split: bind_splits)
  with v show ?thesis by blast
qed

lemma mock_decrypt_transformed:
  assumes "mock_aesgcmsiv_decrypt key key_len nonce nonce_len ciphertext clen aad alen tag plaintext_out
             = Some (rc, p')"
    and "rc = AESGCMSIV_SUCCESS \<or> rc = AESGCMSIV_ERROR_DECRYPT_FAILED"
  shows "\<exists>k n c t p0 r ok. key = Some k \<and> nonce = Some n \<and> ciphertext = Some c
           \<and> tag = Some t \<and> plaintext_out = Some p0 \<and> p' = Some r
           \<and> unat key_len = 32 \<and> unat nonce_len = 12 \<and> (aad = None \<or> alen \<noteq> 0)
           \<and> xor_loop k n c (unat clen) 0 p0 = Some r \<and> tag_check_loop k n clen t 0 = Some ok
           \<and> rc = (if ok then AESGCMSIV_SUCCESS else AESGCMSIV_ERROR_DECRYPT_FAILED)"
proof -
  obtain k n c t p0 where v: "key = Some k" "nonce = Some n" "ciphertext = Some c"
      "tag = Some t" "plaintext_out = Some p0" "unat key_len = 32" "unat nonce_len = 12"
      "aad = None \<or> alen \<noteq> 0"
    using mock_decrypt_past_validation[OF assms(1)] assms(2) by (auto simp: status_defs)
  have "do { r \<leftarrow> xor_loop k n c (unat clen) 0 p0; ok \<leftarrow> tag_check_loop k n clen t 0;
             Some (if ok then AESGCMSIV_SUCCESS else AESGCMSIV_ERROR_DECRYPT_FAILED, Some r) }
          = Some (rc, p')"
    using assms v mock_decrypt_run[of key_len nonce_len aad alen k n c clen t p0] by simp
  then obtain r ok where "xor_loop k n c (unat clen) 0 p0 = Some r"
      "tag_check_loop k n clen t 0 = Some ok" "p' = Some r"
      "rc = (if ok then AESGCMSIV_SUCCESS else AESGCMSIV_ERROR_DECRYPT_FAILED)"
    by (auto split: bind_splits)
  with v show ?thesis by blast
qed

subsection \<open>The test double on well-formed arguments\<close>

lemma mock_encrypt_valid:
  assumes "length k = 32" "length n = 12" "unat plen \<le> length p" "unat plen \<le> length c0"
    and "16 \<le> length t0" "aad = None \<or> alen \<noteq> 0"
  shows "\<exists>c t. mock_aesgcmsiv_encrypt (Some k) 32 (Some n) 12 (Some p) plen aad alen (Some c0) (Some t0)
             = Some (AESGCMSIV_SUCCESS, Some c, Some t)
           \<and> length c = length c0
           \<and> (\<forall>j<length c0. c ! j = (if j < unat plen then transform k n p j else c0 ! j))
           \<and> length t = length t0
           \<and> (\<forall>j<length t0. t ! j = (if j < 16 then expected_tag k n plen j else t0 ! j))"
proof -
  obtain c where c: "xor_loop k n p (unat plen) 0 c0 = Some c"
    using xor_loop_total[of "unat plen" p k n c0 0] assms by auto
  obtain t where t: "tag_loop k n plen 0 t0 = Some t"
    using tag_loop_total[of k n t0 plen 0] assms by auto
  have "mock_aesgcmsiv_encrypt (Some k) 32 (Some n) 12 (Some p) plen aad alen (Some c0) (Some t0)
          = Some (AESGCMSIV_SUCCESS, Some c, Some t)"
    using assms(6) c t by (auto simp: mock_aesgcmsiv_encrypt_def size_defs)
  then show ?thesis
    using xor_loop_Some[OF c] tag_loop_Some[OF t] by auto
qed

lemma mock_decrypt_valid:
  assumes "length k = 32" "length n = 12" "unat clen \<le> length c" "unat clen \<le> length p0"
    and "16 \<le> length t" "aad = None \<or> alen \<noteq> 0"
  shows "\<exists>r. mock_aesgcmsiv_decrypt (Some k) 32 (Some n) 12 (Some c) clen aad alen (Some t) (Some p0)
             = Some (if (\<forall>j<16. t ! j = expected_tag k n clen j)
                     then AESGCMSIV_SUCCESS else AESGCMSIV_ERROR_DECRYPT_FAILED, Some r)
           \<and> length r = length p0
           \<and> (\<forall>j<length p0. r ! j = (if j < unat clen then transform k n c j else p0 ! j))"
proof -
  obtain r where r: "xor_loop k n c (unat clen) 0 p0 = Some r"
    using xor_loop_total[of "unat clen" c k n p0 0] assms by auto
  obtain ok where ok: "tag_check_loop k n clen t 0 = Some ok"
    using tag_check_loop_total[of k n t clen 0] assms by auto
  have "ok = (\<forall>j<16. t ! j = expected_tag k n clen j)"
    using tag_check_loop_Some[OF ok] by simp
  then have "mock_aesgcmsiv_decrypt (Some k) 32 (Some n) 12 (Some c) clen aad alen (Some t) (Some p0)
          = Some (if (\<forall>j<16. t ! j = expected_tag k n clen j)
                     then AESGCMSIV_SUCCESS else AESGCMSIV_ERROR_DECRYPT_FAILED, Some r)"
    using assms(6) r ok by (auto simp: mock_aesgcmsiv_decrypt_def size_defs)
  then show ?thesis
    using xor_loop_Some[OF r] by auto
qed

subsection \<open>The bytes written\<close>

lemma written_prefix:
  assumes "length r = length d" "m \<le> length d"
    and "\<forall>j<length d. r ! j = (if j < m then f j else d ! j)"
  shows "take m r = map f [0..<m] \<and> drop m r = drop m d"
proof
  show "take m r = map f [0..<m]"
    using assms by (intro nth_equalityI) auto
  show "drop m r = drop m d"
    using assms by (intro nth_equalityI) auto
qed

lemma xor_loop_result:
  assumes "xor_loop k n s len 0 d = Some r"
  shows "length r = length d \<and> len \<le> length r
           \<and> take len r = map (transform k n s) [0..<len] \<and> drop len r = drop len d"
proof -
  have l: "length r = length d" and b: "0 < len \<longrightarrow> len \<le> length d"
    and v: "\<forall>j<length d. r ! j = (if j < len then transform k n s j else d ! j)"
    using xor_loop_Some[OF assms] by auto
  from b have m: "len \<le> length d"
    by (cases "len = 0") auto
  from written_prefix[OF l m v] l m show ?thesis
    by simp
qed

lemma tag_loop_result:
  assumes "tag_loop k n len 0 d = Some r"
  shows "length r = length d \<and> 16 \<le> length r
           \<and> take 16 r = map (expected_tag k n len) [0..<16] \<and> drop 16 r = drop 16 d"
proof -
  have l: "length r = length d" and m: "16 \<le> length d"
    and v: "\<forall>j<length d. r ! j = (if j < 16 then expected_tag k n len j else d ! j)"
    using tag_loop_Some[OF assms] by auto
  from written_prefix[OF l m v] l m show ?thesis
    by simp
qed

lemma transform_involution:
  "transform k n c j = s \<Longrightarrow> c ! j = transform k n p j \<Longrightarrow> s = p ! j"
  by (auto simp: transform_def xor.assoc xor.left_commute)

lemma take_nth_eq: "take m xs = take m ys \<Longrightarrow> j < m \<Longrightarrow> xs ! j = ys ! j"
  by (metis nth_take)

subsection \<open>The example arguments, evaluated\<close>

lemma test_seal:
  "mock_aesgcmsiv_encrypt (Some test_key) 32 (Some test_nonce) 12 (Some test_plaintext) 5 None 0
     (Some (replicate 5 0)) (Some (replicate 16 0))
   = Some (AESGCMSIV_SUCCESS, Some test_ciphertext, Some test_tag)"
  by code_simp

lemma test_open:
  "mock_aesgcmsiv_decrypt (Some test_key) 32 (Some test_nonce) 12 (Some test_ciphertext) 5 None 0
     (Some test_tag) (Some (replicate 5 0))
   = Some (AESGCMSIV_SUCCESS, Some test_plaintext)"
  by code_simp

section \<open>Validation\<close>

lemma unat_size_t_eq_32: "(unat (w :: size_t) = 32) = (w = 32)"
proof
  assume "unat w = 32"
  then have "word_of_nat (unat w) = (word_of_nat 32 :: size_t)"
    by simp
  then show "w = 32"
    by simp
next
  assume "w = 32"
  then show "unat w = 32"
    by simp
qed

lemma unat_size_t_eq_12: "(unat (w :: size_t) = 12) = (w = 12)"
proof
  assume "unat w = 12"
  then have "word_of_nat (unat w) = (word_of_nat 12 :: size_t)"
    by simp
  then show "w = 12"
    by simp
next
  assume "w = 12"
  then show "unat w = 12"
    by simp
qed

lemma validate_encrypt_params_eq:
  "validate_encrypt_params key key_len nonce nonce_len plaintext plen aad alen ciphertext_out tag_out
     = (case first_failing_check key key_len nonce nonce_len plaintext ciphertext_out tag_out of
          None \<Rightarrow> AESGCMSIV_SUCCESS | Some e \<Rightarrow> e)"
  by (auto simp: validate_encrypt_params_def first_failing_check_def size_defs
      unat_size_t_eq_32 unat_size_t_eq_12)

lemma validate_decrypt_params_eq:
  "validate_decrypt_params key key_len nonce nonce_len ciphertext clen aad alen tag plaintext_out
     = (case first_failing_check key key_len nonce nonce_len ciphertext tag plaintext_out of
          None \<Rightarrow> AESGCMSIV_SUCCESS | Some e \<Rightarrow> e)"
  by (auto simp: validate_decrypt_params_def first_failing_check_def size_defs
      unat_size_t_eq_32 unat_size_t_eq_12)

lemma first_failing_check_error:
  "first_failing_check key key_len nonce nonce_len buf1 buf2 buf3 = Some e \<Longrightarrow>
     e = AESGCMSIV_ERROR_INVALID_KEY \<or> e = AESGCMSIV_ERROR_INVALID_NONCE
       \<or> e = AESGCMSIV_ERROR_INVALID_INPUT"
  by (auto simp: first_failing_check_def split: if_splits)

lemma encrypt_engine_code:
  "fst (encrypt_engine ossl key nonce plaintext plen aad alen ciphertext_out tag_out) = AESGCMSIV_SUCCESS
     \<or> fst (encrypt_engine ossl key nonce plaintext plen aad alen ciphertext_out tag_out)
         = AESGCMSIV_ERROR_INTERNAL"
  by (simp add: encrypt_engine_def split: option.split prod.split)

lemma decrypt_engine_code:
  "fst (decrypt_engine ossl key nonce ciphertext clen aad alen tag plaintext_out)
     \<in> {AESGCMSIV_SUCCESS, AESGCMSIV_ERROR_INTERNAL, AESGCMSIV_ERROR_INVALID_TAG,
         AESGCMSIV_ERROR_DECRYPT_FAILED}"
  by (simp add: decrypt_engine_def split: option.split prod.split)


lemma mock_encrypt_first_failing_check:
  assumes "first_failing_check key key_len nonce nonce_len plaintext ciphertext_out tag_out = Some e"
  shows "mock_aesgcmsiv_encrypt key key_len nonce nonce_len plaintext plen aad alen ciphertext_out tag_out
           = Some (e, ciphertext_out, tag_out)"
  using assms
  by (auto simp: first_failing_check_def mock_aesgcmsiv_encrypt_def size_defs
      unat_size_t_eq_32 unat_size_t_eq_12 split: if_splits)

lemma mock_decrypt_first_failing_check:
  assumes "first_failing_check key key_len nonce nonce_len ciphertext tag plaintext_out = Some e"
  shows "mock_aesgcmsiv_decrypt key key_len nonce nonce_len ciphertext clen aad alen tag plaintext_out
           = Some (e, plaintext_out)"
  using assms
  by (auto simp: first_failing_check_def mock_aesgcmsiv_decrypt_def size_defs
      unat_size_t_eq_32 unat_size_t_eq_12 split: if_splits)

lemma aesgcmsiv_encrypt_first_failing_check:
  assumes "first_failing_check key key_len nonce nonce_len plaintext ciphertext_out tag_out = Some e"
  shows "aesgcmsiv_encrypt ossl key key_len nonce nonce_len plaintext plen aad alen ciphertext_out tag_out
           = (e, ciphertext_out, tag_out)"
  using assms first_failing_check_error[OF assms]
  by (auto simp: aesgcmsiv_encrypt_def validate_encrypt_params_eq status_defs)

lemma aesgcmsiv_decrypt_first_failing_check:
  assumes "first_failing_check key key_len nonce nonce_len ciphertext tag plaintext_out = Some e"
  shows "aesgcmsiv_decrypt ossl key key_len nonce nonce_len ciphertext clen aad alen tag plaintext_out
           = (e, plaintext_out)"
  using assms first_failing_check_error[OF assms]
  by (auto simp: aesgcmsiv_decrypt_def validate_decrypt_params_eq status_defs)

lemma mock_encrypt_code:
  assumes "mock_aesgcmsiv_encrypt key key_len nonce nonce_len plaintext plen aad alen ciphertext_out tag_out
             = Some (rc, c', t')"
  shows "(c' = ciphertext_out \<and> t' = tag_out) \<or> rc = AESGCMSIV_SUCCESS"
proof (cases "rc = AESGCMSIV_ERROR_INVALID_KEY \<or> rc = AESGCMSIV_ERROR_INVALID_NONCE
    \<or> rc = AESGCMSIV_ERROR_INVALID_INPUT")
  case False
  then obtain k n p c0 t0 where v: "key = Some k" "nonce = Some n" "plaintext = Some p"
      "ciphertext_out = Some c0" "tag_out = Some t0" "unat key_len = 32" "unat nonce_len = 12"
      "aad = None \<or> alen \<noteq> 0"
    using mock_encrypt_past_validation[OF assms] by auto
  from assms have "rc = AESGCMSIV_SUCCESS"
    unfolding v(1-5) mock_encrypt_run[OF v(6-8)] by (auto split: bind_splits)
  then show ?thesis
    by simp
next
  case True
  show ?thesis
  proof (cases "first_failing_check key key_len nonce nonce_len plaintext ciphertext_out tag_out")
    case (Some e)
    from mock_encrypt_first_failing_check[OF Some] assms show ?thesis
      by simp
  next
    case None
    then have v: "key \<noteq> None" "unat key_len = 32" "nonce \<noteq> None" "unat nonce_len = 12"
        "plaintext \<noteq> None" "ciphertext_out \<noteq> None" "tag_out \<noteq> None"
      by (auto simp: first_failing_check_def unat_size_t_eq_32 unat_size_t_eq_12 split: if_splits)
    show ?thesis
    proof (cases "aad \<noteq> None \<and> alen = 0")
      case True
      with mock_encrypt_invalid_input[OF v(1-4), of plaintext ciphertext_out tag_out aad alen plen] assms
      show ?thesis
        by simp
    next
      case False
      obtain k n p c0 t0 where w: "key = Some k" "nonce = Some n" "plaintext = Some p"
          "ciphertext_out = Some c0" "tag_out = Some t0"
        using v by auto
      from False have a: "aad = None \<or> alen \<noteq> 0"
        by simp
      from assms have "rc = AESGCMSIV_SUCCESS"
        unfolding w mock_encrypt_run[OF v(2,4) a] by (auto split: bind_splits)
      then show ?thesis
        by simp
    qed
  qed
qed

lemma mock_decrypt_code:
  assumes "mock_aesgcmsiv_decrypt key key_len nonce nonce_len ciphertext clen aad alen tag plaintext_out
             = Some (rc, p')"
  shows "p' = plaintext_out \<or> rc = AESGCMSIV_SUCCESS \<or> rc = AESGCMSIV_ERROR_DECRYPT_FAILED"
proof (cases "first_failing_check key key_len nonce nonce_len ciphertext tag plaintext_out")
  case (Some e)
  from mock_decrypt_first_failing_check[OF Some] assms show ?thesis
    by simp
next
  case None
  then have v: "key \<noteq> None" "unat key_len = 32" "nonce \<noteq> None" "unat nonce_len = 12"
      "ciphertext \<noteq> None" "tag \<noteq> None" "plaintext_out \<noteq> None"
    by (auto simp: first_failing_check_def unat_size_t_eq_32 unat_size_t_eq_12 split: if_splits)
  show ?thesis
  proof (cases "aad \<noteq> None \<and> alen = 0")
    case True
    with mock_decrypt_invalid_input[OF v(1-4), of ciphertext tag plaintext_out aad alen clen] assms
    show ?thesis
      by simp
  next
    case False
    obtain k n c t p0 where w: "key = Some k" "nonce = Some n" "ciphertext = Some c"
        "tag = Some t" "plaintext_out = Some p0"
      using v by auto
    from False have a: "aad = None \<or> alen \<noteq> 0"
      by simp
    from assms have "rc = AESGCMSIV_SUCCESS \<or> rc = AESGCMSIV_ERROR_DECRYPT_FAILED"
      unfolding w mock_decrypt_run[OF v(2,4) a] by (auto split: bind_splits if_splits)
    then show ?thesis
      by blast
  qed
qed

lemma aesgcmsiv_encrypt_code:
  assumes "aesgcmsiv_encrypt ossl key key_len nonce nonce_len plaintext plen aad alen ciphertext_out tag_out
             = (rc, c', t')"
  shows "(c' = ciphertext_out \<and> t' = tag_out) \<or> rc = AESGCMSIV_SUCCESS
           \<or> rc = AESGCMSIV_ERROR_INTERNAL"
proof (cases "first_failing_check key key_len nonce nonce_len plaintext ciphertext_out tag_out")
  case (Some e)
  from aesgcmsiv_encrypt_first_failing_check[OF Some, of ossl plen aad alen] assms show ?thesis
    by simp
next
  case None
  then have "aesgcmsiv_encrypt ossl key key_len nonce nonce_len plaintext plen aad alen ciphertext_out tag_out
      = encrypt_engine ossl key nonce plaintext plen aad alen ciphertext_out tag_out"
    by (simp add: aesgcmsiv_encrypt_def validate_encrypt_params_eq)
  with assms encrypt_engine_code[of ossl key nonce plaintext plen aad alen ciphertext_out tag_out]
  show ?thesis
    by auto
qed

lemma aesgcmsiv_decrypt_code:
  assumes "aesgcmsiv_decrypt ossl key key_len nonce nonce_len ciphertext clen aad alen tag plaintext_out
             = (rc, p')"
  shows "p' = plaintext_out \<or> rc \<in> {AESGCMSIV_SUCCESS, AESGCMSIV_ERROR_INTERNAL,
           AESGCMSIV_ERROR_INVALID_TAG, AESGCMSIV_ERROR_DECRYPT_FAILED}"
proof (cases "first_failing_check key key_len nonce nonce_len ciphertext tag plaintext_out")
  case (Some e)
  from aesgcmsiv_decrypt_first_failing_check[OF Some, of ossl clen aad alen] assms show ?thesis
    by simp
next
  case None
  then have "aesgcmsiv_decrypt ossl key key_len nonce nonce_len ciphertext clen aad alen tag plaintext_out
      = decrypt_engine ossl key nonce ciphertext clen aad alen tag plaintext_out"
    by (simp add: aesgcmsiv_decrypt_def validate_decrypt_params_eq)
  with assms decrypt_engine_code[of ossl key nonce ciphertext clen aad alen tag plaintext_out]
  show ?thesis
    by auto
qed

subsection \<open>The aad in the OpenSSL adapter\<close>

lemma encrypt_engine_empty_aad:
  "encrypt_engine ossl key nonce plaintext plen (Some a) 0 ciphertext_out tag_out
     = encrypt_engine ossl key nonce plaintext plen None alen ciphertext_out tag_out"
  by (simp add: encrypt_engine_def split: option.split prod.split)

lemma decrypt_engine_empty_aad:
  "decrypt_engine ossl key nonce ciphertext clen (Some a) 0 tag plaintext_out
     = decrypt_engine ossl key nonce ciphertext clen None alen tag plaintext_out"
  by (simp add: decrypt_engine_def split: option.split prod.split)

lemma validate_encrypt_params_aad:
  "validate_encrypt_params key key_len nonce nonce_len plaintext plen aad alen ciphertext_out tag_out
     = validate_encrypt_params key key_len nonce nonce_len plaintext plen aad' alen' ciphertext_out tag_out"
  by (simp add: validate_encrypt_params_def)

lemma validate_decrypt_params_aad:
  "validate_decrypt_params key key_len nonce nonce_len ciphertext clen aad alen tag plaintext_out
     = validate_decrypt_params key key_len nonce nonce_len ciphertext clen aad' alen' tag plaintext_out"
  by (simp add: validate_decrypt_params_def)

lemma aesgcmsiv_encrypt_empty_aad:
  "aesgcmsiv_encrypt ossl key key_len nonce nonce_len plaintext plen (Some a) 0 ciphertext_out tag_out
     = aesgcmsiv_encrypt ossl key key_len nonce nonce_len plaintext plen None alen ciphertext_out tag_out"
  unfolding aesgcmsiv_encrypt_def
  by (simp only: encrypt_engine_empty_aad[where alen = alen]
      validate_encrypt_params_aad[where aad = "Some a" and alen = 0 and aad' = None and alen' = alen])

lemma aesgcmsiv_decrypt_empty_aad:
  "aesgcmsiv_decrypt ossl key key_len nonce nonce_len ciphertext clen (Some a) 0 tag plaintext_out
     = aesgcmsiv_decrypt ossl key key_len nonce nonce_len ciphertext clen None alen tag plaintext_out"
  unfolding aesgcmsiv_decrypt_def
  by (simp only: decrypt_engine_empty_aad[where alen = alen]
      validate_decrypt_params_aad[where aad = "Some a" and alen = 0 and aad' = None and alen' = alen])

section \<open>Tampering\<close>

lemma flip_bit_differs: "b < 8 \<Longrightarrow> flip_bit b (x :: byte) \<noteq> x"
proof
  assume b: "b < 8" and "flip_bit b x = x"
  then have "bit (flip_bit b x) b = bit x b"
    by simp
  with b show False
    by (simp add: bit_flip_bit_iff)
qed

lemma flip_bit_at_length: "length (flip_bit_at bs j b) = length bs"
  by (simp add: flip_bit_at_def)

lemma flip_bit_at_same: "j < length bs \<Longrightarrow> flip_bit_at bs j b ! j = flip_bit b (bs ! j)"
  by (simp add: flip_bit_at_def)

lemma flip_bit_at_other: "i \<noteq> j \<Longrightarrow> flip_bit_at bs j b ! i = bs ! i"
  by (simp add: flip_bit_at_def)

lemma tag_byte_inj_key: "tag_byte k c len = tag_byte k' c len \<Longrightarrow> k = k'"
  by (simp add: tag_byte_eq)

lemma tag_byte_inj_nonce: "tag_byte k c len = tag_byte k c' len \<Longrightarrow> c = c'"
  by (simp add: tag_byte_eq)

lemma mock_seal_outputs:
  assumes "mock_aesgcmsiv_encrypt (Some k) key_len (Some n) nonce_len (Some p) plen aad alen c_out t_out
             = Some (AESGCMSIV_SUCCESS, Some c, Some t)"
  shows "unat plen \<le> length c \<and> 16 \<le> length t \<and> (aad = None \<or> alen \<noteq> 0)
           \<and> (\<forall>j<16. t ! j = expected_tag k n plen j)
           \<and> (\<forall>j<unat plen. c ! j = transform k n p j)"
proof -
  obtain c0 t0 where a: "aad = None \<or> alen \<noteq> 0"
    and xl: "xor_loop k n p (unat plen) 0 c0 = Some c"
    and tl: "tag_loop k n plen 0 t0 = Some t"
    using mock_encrypt_SUCCESS[OF assms] by auto
  have c: "unat plen \<le> length c" "take (unat plen) c = map (transform k n p) [0..<unat plen]"
    using xor_loop_result[OF xl] by simp_all
  have t: "16 \<le> length t" "take 16 t = map (expected_tag k n plen) [0..<16]"
    using tag_loop_result[OF tl] by simp_all
  have "\<forall>j<unat plen. c ! j = transform k n p j"
  proof (intro allI impI)
    fix j assume j: "j < unat plen"
    then have "c ! j = take (unat plen) c ! j"
      by simp
    also have "\<dots> = transform k n p j"
      using j by (simp only: c(2)) simp
    finally show "c ! j = transform k n p j" .
  qed
  moreover have "\<forall>j<16. t ! j = expected_tag k n plen j"
  proof (intro allI impI)
    fix j :: nat assume j: "j < 16"
    then have "t ! j = take 16 t ! j"
      by simp
    also have "\<dots> = expected_tag k n plen j"
      using j by (simp only: t(2)) simp
    finally show "t ! j = expected_tag k n plen j" .
  qed
  ultimately show ?thesis
    using a c(1) t(1) by simp
qed

lemma mock_open_after_seal:
  assumes "length k = 32" "length n = 12" "unat plen \<le> length c" "unat plen \<le> length p0"
    and "16 \<le> length t" "aad = None \<or> alen \<noteq> 0"
  shows "\<exists>r. mock_aesgcmsiv_decrypt (Some k) 32 (Some n) 12 (Some c) plen aad alen (Some t) (Some p0)
               = Some (if (\<forall>j<16. t ! j = expected_tag k n plen j)
                       then AESGCMSIV_SUCCESS else AESGCMSIV_ERROR_DECRYPT_FAILED, r)"
  using mock_decrypt_valid[OF assms] by blast

lemma open_detects:
  assumes "length k = 32" "length n = 12" "unat clen \<le> length c" "unat clen \<le> length p0"
    and "16 \<le> length t" "aad = None \<or> alen \<noteq> 0"
    and "j < 16" "t ! j \<noteq> expected_tag k n clen j"
  shows "\<exists>r. mock_aesgcmsiv_decrypt (Some k) 32 (Some n) 12 (Some c) clen aad alen (Some t) (Some p0)
               = Some (AESGCMSIV_ERROR_DECRYPT_FAILED, r)"
proof -
  from assms(7,8) have "\<not> (\<forall>j<16. t ! j = expected_tag k n clen j)"
    by blast
  with mock_open_after_seal[OF assms(1-6)] show ?thesis
    by (simp only: if_False)
qed

lemma open_accepts:
  assumes "length k = 32" "length n = 12" "unat clen \<le> length c" "unat clen \<le> length p0"
    and "16 \<le> length t" "aad = None \<or> alen \<noteq> 0"
    and "\<forall>j<16. t ! j = expected_tag k n clen j"
  shows "\<exists>r. mock_aesgcmsiv_decrypt (Some k) 32 (Some n) 12 (Some c) clen aad alen (Some t) (Some p0)
               = Some (AESGCMSIV_SUCCESS, r)"
proof -
  from assms(7) have "(if \<forall>j<16. t ! j = expected_tag k n clen j then AESGCMSIV_SUCCESS
      else AESGCMSIV_ERROR_DECRYPT_FAILED) = AESGCMSIV_SUCCESS"
    by simp
  with mock_open_after_seal[OF assms(1-6)] show ?thesis
    by (simp only:)
qed

lemma mock_seal_plaintext_bound:
  assumes "mock_aesgcmsiv_encrypt (Some k) key_len (Some n) nonce_len (Some p) plen aad alen c_out t_out
             = Some (AESGCMSIV_SUCCESS, c, t)"
  shows "unat plen \<le> length p"
proof -
  obtain c0 c' where "xor_loop k n p (unat plen) 0 c0 = Some c'"
    using mock_encrypt_SUCCESS[OF assms] by auto
  from xor_loop_Some[OF this] show ?thesis
    by (cases "unat plen = 0") auto
qed

section \<open>Empty plaintext and length preservation\<close>

text \<open>
  With an aad that is absent or of non-zero length, the test double's Seal of a present
  plaintext of length 0 succeeds, writes no ciphertext byte and writes the 16 tag
  bytes; Open on that ciphertext and tag succeeds and writes no plaintext byte.
\<close>

lemma mock_empty_plaintext:
  assumes "length k = 32" "length n = 12" "16 \<le> length t0" "aad = None \<or> alen \<noteq> 0"
  shows "\<exists>t. mock_aesgcmsiv_encrypt (Some k) 32 (Some n) 12 (Some p) 0 aad alen (Some c0) (Some t0)
               = Some (AESGCMSIV_SUCCESS, Some c0, Some t)
             \<and> take 16 t = map (expected_tag k n 0) [0..<16] \<and> drop 16 t = drop 16 t0
             \<and> mock_aesgcmsiv_decrypt (Some k) 32 (Some n) 12 (Some c0) 0 aad alen (Some t) (Some p0)
                 = Some (AESGCMSIV_SUCCESS, Some p0)"
proof -
  have c: "xor_loop k n p (unat (0 :: size_t)) 0 c0 = Some c0"
    by (simp add: xor_loop_done)
  obtain t where t: "tag_loop k n 0 0 t0 = Some t"
    using tag_loop_total[of k n t0 0 0] assms by auto
  have e: "mock_aesgcmsiv_encrypt (Some k) 32 (Some n) 12 (Some p) 0 aad alen (Some c0) (Some t0)
             = Some (AESGCMSIV_SUCCESS, Some c0, Some t)"
    using c t assms(4) by (simp add: mock_encrypt_run)
  have tr: "16 \<le> length t" "take 16 t = map (expected_tag k n 0) [0..<16]" "drop 16 t = drop 16 t0"
    using tag_loop_result[OF t] by simp_all
  have "\<forall>j<16. t ! j = expected_tag k n 0 j"
  proof (intro allI impI)
    fix j :: nat assume j: "j < 16"
    then have "t ! j = take 16 t ! j"
      by simp
    also have "\<dots> = expected_tag k n 0 j"
      using j by (simp only: tr(2)) simp
    finally show "t ! j = expected_tag k n 0 j" .
  qed
  then have ok: "tag_check_loop k n 0 t 0 = Some True"
    using tag_check_loop_total[of k n t 0 0] tag_check_loop_Some[of k n 0 t 0] assms tr(1)
    by auto
  have p: "xor_loop k n c0 (unat (0 :: size_t)) 0 p0 = Some p0"
    by (simp add: xor_loop_done)
  have d: "mock_aesgcmsiv_decrypt (Some k) 32 (Some n) 12 (Some c0) 0 aad alen (Some t) (Some p0)
             = Some (AESGCMSIV_SUCCESS, Some p0)"
    using p ok assms(4) by (simp add: mock_decrypt_run)
  from e tr d show ?thesis
    by blast
qed

lemma mock_seal_rejects_present_empty_aad:
  "mock_aesgcmsiv_encrypt key key_len nonce nonce_len plaintext plen (Some a) 0 ciphertext_out tag_out
     \<noteq> Some (AESGCMSIV_SUCCESS, c', t')"
proof
  assume "mock_aesgcmsiv_encrypt key key_len nonce nonce_len plaintext plen (Some a) 0 ciphertext_out tag_out
            = Some (AESGCMSIV_SUCCESS, c', t')"
  from mock_encrypt_SUCCESS[OF this] show False
    by simp
qed

text \<open>
  A successful Seal of the test double leaves the ciphertext buffer at its size and
  writes exactly its first \<open>plen\<close> bytes, one for each plaintext byte; the bytes behind
  them are untouched. A successful Open does the same to the plaintext buffer with the
  \<open>clen\<close> ciphertext bytes.
\<close>

lemma mock_length_preservation:
  "(mock_aesgcmsiv_encrypt (Some k) key_len (Some n) nonce_len (Some p) plen aad alen (Some c0) t_out
      = Some (AESGCMSIV_SUCCESS, c', t') \<longrightarrow>
      (\<exists>c. c' = Some c \<and> length c = length c0 \<and> unat plen \<le> length c
         \<and> take (unat plen) c = map (transform k n p) [0..<unat plen]
         \<and> length (take (unat plen) c) = unat plen
         \<and> drop (unat plen) c = drop (unat plen) c0))
   \<and>
   (mock_aesgcmsiv_decrypt (Some k) key_len (Some n) nonce_len (Some c) clen aad alen tag (Some p0)
      = Some (AESGCMSIV_SUCCESS, p') \<longrightarrow>
      (\<exists>r. p' = Some r \<and> length r = length p0 \<and> unat clen \<le> length r
         \<and> take (unat clen) r = map (transform k n c) [0..<unat clen]
         \<and> length (take (unat clen) r) = unat clen
         \<and> drop (unat clen) r = drop (unat clen) p0))"
proof (intro conjI impI)
  assume "mock_aesgcmsiv_encrypt (Some k) key_len (Some n) nonce_len (Some p) plen aad alen (Some c0) t_out
            = Some (AESGCMSIV_SUCCESS, c', t')"
  from mock_encrypt_SUCCESS[OF this] obtain c where "c' = Some c"
      "xor_loop k n p (unat plen) 0 c0 = Some c"
    by auto
  with xor_loop_result[OF this(2)]
  show "\<exists>c. c' = Some c \<and> length c = length c0 \<and> unat plen \<le> length c
         \<and> take (unat plen) c = map (transform k n p) [0..<unat plen]
         \<and> length (take (unat plen) c) = unat plen
         \<and> drop (unat plen) c = drop (unat plen) c0"
    by simp
next
  assume "mock_aesgcmsiv_decrypt (Some k) key_len (Some n) nonce_len (Some c) clen aad alen tag (Some p0)
            = Some (AESGCMSIV_SUCCESS, p')"
  from mock_decrypt_transformed[OF this] obtain r where "p' = Some r"
      "xor_loop k n c (unat clen) 0 p0 = Some r"
    by auto
  with xor_loop_result[OF this(2)]
  show "\<exists>r. p' = Some r \<and> length r = length p0 \<and> unat clen \<le> length r
         \<and> take (unat clen) r = map (transform k n c) [0..<unat clen]
         \<and> length (take (unat clen) r) = unat clen
         \<and> drop (unat clen) r = drop (unat clen) p0"
    by simp
qed

subsection \<open>The length the OpenSSL adapter passes on\<close>

lemma size_t_to_int_wraps: "size_t_to_int 4294967301 = 5"
  by (simp add: size_t_to_int_def)

lemma encrypt_engine_SUCCESS:
  assumes "encrypt_engine ossl key nonce plaintext plen aad alen ciphertext_out tag_out
             = (AESGCMSIV_SUCCESS, c', t')"
  shows "\<exists>ctx ctx'. EVP_EncryptUpdate ossl ctx ciphertext_out plaintext (size_t_to_int plen)
           = (1, ctx', c')"
  using assms
  by (auto simp: encrypt_engine_def status_defs split: option.splits prod.splits if_splits)

lemma decrypt_engine_SUCCESS:
  assumes "decrypt_engine ossl key nonce ciphertext clen aad alen tag plaintext_out
             = (AESGCMSIV_SUCCESS, p')"
  shows "\<exists>ctx ctx'. EVP_DecryptUpdate ossl ctx plaintext_out ciphertext (size_t_to_int clen)
           = (1, ctx', p')"
  using assms
  by (auto simp: decrypt_engine_def status_defs split: option.splits prod.splits if_splits)

lemma aesgcmsiv_encrypt_SUCCESS:
  assumes "aesgcmsiv_encrypt ossl key key_len nonce nonce_len plaintext plen aad alen ciphertext_out tag_out
             = (AESGCMSIV_SUCCESS, c', t')"
  shows "encrypt_engine ossl key nonce plaintext plen aad alen ciphertext_out tag_out
           = (AESGCMSIV_SUCCESS, c', t')"
  using assms by (auto simp: aesgcmsiv_encrypt_def Let_def split: if_splits)

lemma aesgcmsiv_decrypt_SUCCESS:
  assumes "aesgcmsiv_decrypt ossl key key_len nonce nonce_len ciphertext clen aad alen tag plaintext_out
             = (AESGCMSIV_SUCCESS, p')"
  shows "decrypt_engine ossl key nonce ciphertext clen aad alen tag plaintext_out
           = (AESGCMSIV_SUCCESS, p')"
  using assms by (auto simp: aesgcmsiv_decrypt_def Let_def split: if_splits)

lemma copy_openssl_seal:
  "aesgcmsiv_encrypt copy_openssl (Some test_key) 32 (Some test_nonce) 12
       (Some (replicate 4294967301 1)) 4294967301 None 0
       (Some (replicate 4294967301 0)) (Some (replicate 16 0))
     = (AESGCMSIV_SUCCESS, Some (replicate 5 1 @ replicate 4294967296 0), Some (replicate 16 0))"
  by (simp add: aesgcmsiv_encrypt_def validate_encrypt_params_def encrypt_engine_def copy_openssl_def
      size_t_to_int_wraps size_defs status_defs)


lemma copy_openssl_open:
  "aesgcmsiv_decrypt copy_openssl (Some test_key) 32 (Some test_nonce) 12
       (Some (replicate 4294967301 1)) 4294967301 None 0
       (Some (replicate 16 0)) (Some (replicate 4294967301 0))
     = (AESGCMSIV_SUCCESS, Some (replicate 5 1 @ replicate 4294967296 0))"
  by (simp add: aesgcmsiv_decrypt_def validate_decrypt_params_def decrypt_engine_def copy_openssl_def
      size_t_to_int_wraps size_defs status_defs)

lemma copy_openssl_update:
  "EVP_EncryptUpdate copy_openssl ctx (Some ob) inp inl = (1, ctx', out') \<Longrightarrow>
     \<exists>ob'. out' = Some ob' \<and> drop (nat inl) ob' = drop (nat inl) ob"
  "EVP_DecryptUpdate copy_openssl ctx (Some ob) inp inl = (1, ctx', out') \<Longrightarrow>
     \<exists>ob'. out' = Some ob' \<and> drop (nat inl) ob' = drop (nat inl) ob"
  by (auto simp: copy_openssl_def min_def split: option.splits)

section \<open>The claims\<close>

text \<open>
  C1 (round trip, test double). For a 32-byte key, a 12-byte nonce, a plaintext of
  \<open>plen\<close> bytes and any aad: when Seal returns success, Open called with the same key,
  nonce and aad on the ciphertext and the tag Seal wrote returns success, and the
  \<open>plen\<close> bytes it writes are the plaintext bytes.
\<close>

theorem mock_round_trip:
  assumes "length k = 32" "length n = 12" "unat plen \<le> length p0"
    and "mock_aesgcmsiv_encrypt (Some k) 32 (Some n) 12 (Some p) plen aad alen c_out t_out
           = Some (AESGCMSIV_SUCCESS, Some c, Some t)"
  shows "\<exists>r. mock_aesgcmsiv_decrypt (Some k) 32 (Some n) 12 (Some c) plen aad alen (Some t) (Some p0)
               = Some (AESGCMSIV_SUCCESS, Some r)
             \<and> take (unat plen) r = take (unat plen) p"
proof -
  have o: "unat plen \<le> length c" "16 \<le> length t" "aad = None \<or> alen \<noteq> 0"
    and tg: "\<forall>j<16. t ! j = expected_tag k n plen j"
    and ct: "\<forall>j<unat plen. c ! j = transform k n p j"
    using mock_seal_outputs[OF assms(4)] by simp_all
  have pl: "unat plen \<le> length p"
    by (rule mock_seal_plaintext_bound[OF assms(4)])
  obtain r where r: "mock_aesgcmsiv_decrypt (Some k) 32 (Some n) 12 (Some c) plen aad alen (Some t) (Some p0)
             = Some (if (\<forall>j<16. t ! j = expected_tag k n plen j)
                     then AESGCMSIV_SUCCESS else AESGCMSIV_ERROR_DECRYPT_FAILED, Some r)"
      "length r = length p0"
      "\<forall>j<length p0. r ! j = (if j < unat plen then transform k n c j else p0 ! j)"
    using mock_decrypt_valid[OF assms(1,2) o(1) assms(3) o(2,3)] by blast
  have "take (unat plen) r = take (unat plen) p"
  proof (rule nth_equalityI)
    show "length (take (unat plen) r) = length (take (unat plen) p)"
      using r(2) assms(3) pl by simp
  next
    fix j assume "j < length (take (unat plen) r)"
    then have j: "j < unat plen" "j < length p0"
      using r(2) by simp_all
    then have "r ! j = transform k n c j" "c ! j = transform k n p j"
      using r(3) ct by auto
    then show "take (unat plen) r ! j = take (unat plen) p ! j"
      using j transform_involution[of k n c j "r ! j" p] by simp
  qed
  with r(1) tg show ?thesis
    by simp
qed

theorem mock_round_trip_witness:
  "\<exists>r. mock_aesgcmsiv_decrypt (Some test_key) 32 (Some test_nonce) 12 (Some test_ciphertext) 5
          None 0 (Some test_tag) (Some (replicate 5 0))
        = Some (AESGCMSIV_SUCCESS, Some r)
      \<and> take (unat (5 :: size_t)) r = take (unat (5 :: size_t)) test_plaintext"
  by (rule mock_round_trip[OF _ _ _ test_seal]) (simp_all add: test_key_def test_nonce_def)

text \<open>
  C7 (empty plaintext). With a valid key and nonce and a present plaintext of length 0,
  the test double's Seal succeeds when the aad pointer is null, writes no ciphertext
  byte and the 16 tag bytes, and Open reverses it (lemma \<open>mock_empty_plaintext\<close>).
  With a non-null aad pointer of length 0 the same Seal returns \<open>InvalidInput\<close> and
  writes nothing.
\<close>

theorem mock_empty_plaintext_empty_aad:
  "mock_aesgcmsiv_encrypt (Some test_key) 32 (Some test_nonce) 12 (Some []) 0 (Some []) 0
       (Some []) (Some (replicate 16 0))
     = Some (AESGCMSIV_ERROR_INVALID_INPUT, Some [], Some (replicate 16 0))
   \<and> mock_aesgcmsiv_encrypt (Some test_key) 32 (Some test_nonce) 12 (Some []) 0 None 0
       (Some []) (Some (replicate 16 0))
     = Some (AESGCMSIV_SUCCESS, Some [], Some (replicate 16 3))
   \<and> mock_aesgcmsiv_decrypt (Some test_key) 32 (Some test_nonce) 12 (Some []) 0 None 0
       (Some (replicate 16 3)) (Some [])
     = Some (AESGCMSIV_SUCCESS, Some [])
   \<and> AESGCMSIV_ERROR_INVALID_INPUT \<noteq> AESGCMSIV_SUCCESS"
proof (intro conjI)
  show "mock_aesgcmsiv_encrypt (Some test_key) 32 (Some test_nonce) 12 (Some []) 0 (Some []) 0
       (Some []) (Some (replicate 16 0))
     = Some (AESGCMSIV_ERROR_INVALID_INPUT, Some [], Some (replicate 16 0))"
    by code_simp
  show "mock_aesgcmsiv_encrypt (Some test_key) 32 (Some test_nonce) 12 (Some []) 0 None 0
       (Some []) (Some (replicate 16 0))
     = Some (AESGCMSIV_SUCCESS, Some [], Some (replicate 16 3))"
    by code_simp
  show "mock_aesgcmsiv_decrypt (Some test_key) 32 (Some test_nonce) 12 (Some []) 0 None 0
       (Some (replicate 16 3)) (Some [])
     = Some (AESGCMSIV_SUCCESS, Some [])"
    by code_simp
  show "AESGCMSIV_ERROR_INVALID_INPUT \<noteq> AESGCMSIV_SUCCESS"
    by (simp add: status_defs)
qed

text \<open>
  C8 (length preservation). The test double preserves the length (lemma
  \<open>mock_length_preservation\<close>). The OpenSSL adapter hands the engine the length cast to
  \<^verbatim>\<open>int\<close>: with an engine that writes no byte behind the \<open>inl\<close> bytes it is asked
  to process, a successful Seal or Open leaves every byte of the output buffer from
  index \<open>(int) len\<close> on untouched. For \<open>len = 2 ^ 32 + 5\<close> that index is 5, so at most 5
  bytes are written for a text of \<open>2 ^ 32 + 5\<close> bytes, and the call returns success.
\<close>

theorem adapter_length_cast:
  assumes "\<And>ctx ob inp inl ctx' out'.
             EVP_EncryptUpdate ossl ctx (Some ob) inp inl = (1, ctx', out') \<Longrightarrow>
               \<exists>ob'. out' = Some ob' \<and> drop (nat inl) ob' = drop (nat inl) ob"
    and "\<And>ctx ob inp inl ctx' out'.
             EVP_DecryptUpdate ossl ctx (Some ob) inp inl = (1, ctx', out') \<Longrightarrow>
               \<exists>ob'. out' = Some ob' \<and> drop (nat inl) ob' = drop (nat inl) ob"
  shows "(aesgcmsiv_encrypt ossl key key_len nonce nonce_len plaintext len aad alen (Some c0) tag_out
            = (AESGCMSIV_SUCCESS, c', t') \<longrightarrow>
            (\<exists>c. c' = Some c
               \<and> drop (nat (size_t_to_int len)) c = drop (nat (size_t_to_int len)) c0))
       \<and> (aesgcmsiv_decrypt ossl key key_len nonce nonce_len ciphertext len aad alen tag (Some p0)
            = (AESGCMSIV_SUCCESS, p') \<longrightarrow>
            (\<exists>r. p' = Some r
               \<and> drop (nat (size_t_to_int len)) r = drop (nat (size_t_to_int len)) p0))"
proof (intro conjI impI)
  assume "aesgcmsiv_encrypt ossl key key_len nonce nonce_len plaintext len aad alen (Some c0) tag_out
            = (AESGCMSIV_SUCCESS, c', t')"
  from encrypt_engine_SUCCESS[OF aesgcmsiv_encrypt_SUCCESS[OF this]] obtain ctx ctx'
    where "EVP_EncryptUpdate ossl ctx (Some c0) plaintext (size_t_to_int len) = (1, ctx', c')"
    by blast
  from assms(1)[OF this]
  show "\<exists>c. c' = Some c \<and> drop (nat (size_t_to_int len)) c = drop (nat (size_t_to_int len)) c0" .
next
  assume "aesgcmsiv_decrypt ossl key key_len nonce nonce_len ciphertext len aad alen tag (Some p0)
            = (AESGCMSIV_SUCCESS, p')"
  from decrypt_engine_SUCCESS[OF aesgcmsiv_decrypt_SUCCESS[OF this]] obtain ctx ctx'
    where "EVP_DecryptUpdate ossl ctx (Some p0) ciphertext (size_t_to_int len) = (1, ctx', p')"
    by blast
  from assms(2)[OF this]
  show "\<exists>r. p' = Some r \<and> drop (nat (size_t_to_int len)) r = drop (nat (size_t_to_int len)) p0" .
qed

theorem adapter_length_cast_witness:
  "aesgcmsiv_encrypt copy_openssl (Some test_key) 32 (Some test_nonce) 12
       (Some (replicate 4294967301 1)) 4294967301 None 0
       (Some (replicate 4294967301 0)) (Some (replicate 16 0))
     = (AESGCMSIV_SUCCESS, Some (replicate 5 1 @ replicate 4294967296 0), Some (replicate 16 0))
   \<and> aesgcmsiv_decrypt copy_openssl (Some test_key) 32 (Some test_nonce) 12
       (Some (replicate 4294967301 1)) 4294967301 None 0
       (Some (replicate 16 0)) (Some (replicate 4294967301 0))
     = (AESGCMSIV_SUCCESS, Some (replicate 5 1 @ replicate 4294967296 0))
   \<and> size_t_to_int 4294967301 = 5
   \<and> (\<exists>c. Some (replicate 5 1 @ replicate 4294967296 0) = Some c
         \<and> drop (nat (size_t_to_int 4294967301)) c
             = drop (nat (size_t_to_int 4294967301)) (replicate 4294967301 (0 :: byte)))
   \<and> (\<exists>r. Some (replicate 5 1 @ replicate 4294967296 0) = Some r
         \<and> drop (nat (size_t_to_int 4294967301)) r
             = drop (nat (size_t_to_int 4294967301)) (replicate 4294967301 (0 :: byte)))"
proof (intro conjI)
  show "aesgcmsiv_encrypt copy_openssl (Some test_key) 32 (Some test_nonce) 12
       (Some (replicate 4294967301 1)) 4294967301 None 0
       (Some (replicate 4294967301 0)) (Some (replicate 16 0))
     = (AESGCMSIV_SUCCESS, Some (replicate 5 1 @ replicate 4294967296 0), Some (replicate 16 0))"
    by (rule copy_openssl_seal)
  show "aesgcmsiv_decrypt copy_openssl (Some test_key) 32 (Some test_nonce) 12
       (Some (replicate 4294967301 1)) 4294967301 None 0
       (Some (replicate 16 0)) (Some (replicate 4294967301 0))
     = (AESGCMSIV_SUCCESS, Some (replicate 5 1 @ replicate 4294967296 0))"
    by (rule copy_openssl_open)
  show "size_t_to_int 4294967301 = 5"
    by (rule size_t_to_int_wraps)
  show "\<exists>c. Some (replicate 5 1 @ replicate 4294967296 0) = Some c
         \<and> drop (nat (size_t_to_int 4294967301)) c
             = drop (nat (size_t_to_int 4294967301)) (replicate 4294967301 (0 :: byte))"
    by (rule adapter_length_cast[THEN conjunct1, THEN mp, OF _ _ copy_openssl_seal])
      (erule copy_openssl_update)+
  show "\<exists>r. Some (replicate 5 1 @ replicate 4294967296 0) = Some r
         \<and> drop (nat (size_t_to_int 4294967301)) r
             = drop (nat (size_t_to_int 4294967301)) (replicate 4294967301 (0 :: byte))"
    by (rule adapter_length_cast[THEN conjunct2, THEN mp, OF _ _ copy_openssl_open])
      (erule copy_openssl_update)+
qed

text \<open>
  C9 (Open writes before it verifies, test double). Whenever Open returns
  \<open>DecryptFailed\<close>, the first \<open>clen\<close> bytes of the plaintext buffer are the transform
  of the ciphertext bytes it was given; the bytes behind them are untouched.
\<close>

theorem mock_decrypt_failed_overwrites:
  assumes "mock_aesgcmsiv_decrypt (Some k) key_len (Some n) nonce_len (Some c) clen aad alen tag (Some p0)
             = Some (AESGCMSIV_ERROR_DECRYPT_FAILED, p')"
  shows "\<exists>r. p' = Some r \<and> length r = length p0 \<and> unat clen \<le> length r
           \<and> take (unat clen) r = map (transform k n c) [0..<unat clen]
           \<and> drop (unat clen) r = drop (unat clen) p0"
proof -
  from mock_decrypt_transformed[OF assms] obtain r where "p' = Some r"
      "xor_loop k n c (unat clen) 0 p0 = Some r"
    by auto
  with xor_loop_result[OF this(2)] show ?thesis
    by simp
qed

theorem mock_decrypt_failed_overwrites_witness:
  "\<exists>r. Some [104, 101, 108, 108, 111] = Some r \<and> length r = length (replicate 5 0 :: byte list)
       \<and> unat (5 :: size_t) \<le> length r
       \<and> take (unat (5 :: size_t)) r
           = map (transform test_key test_nonce test_ciphertext) [0..<unat (5 :: size_t)]
       \<and> drop (unat (5 :: size_t)) r = drop (unat (5 :: size_t)) (replicate 5 0)"
proof -
  have d: "mock_aesgcmsiv_decrypt (Some test_key) 32 (Some test_nonce) 12 (Some test_ciphertext) 5
             None 0 (Some (replicate 16 9)) (Some (replicate 5 0))
           = Some (AESGCMSIV_ERROR_DECRYPT_FAILED, Some [104, 101, 108, 108, 111])"
    by code_simp
  show ?thesis
    by (rule mock_decrypt_failed_overwrites[OF d])
qed

text \<open>
  C10 (the tag ignores the plaintext bytes, test double). Two successful Seals with
  the same nonce and plaintext length, and keys that agree on their first 16 bytes,
  write the same 16 tag bytes, whatever the plaintexts and the aads are: byte \<open>j\<close> of
  the tag is \<open>key[j] + nonce[j mod 12] + plen\<close> modulo 256.
\<close>

theorem mock_tag_ignores_plaintext:
  assumes "take 16 k1 = take 16 k2"
    and "mock_aesgcmsiv_encrypt (Some k1) key_len1 (Some n) nonce_len1 p1 plen aad1 alen1 c1 t1
           = Some (AESGCMSIV_SUCCESS, c1', Some tag1)"
    and "mock_aesgcmsiv_encrypt (Some k2) key_len2 (Some n) nonce_len2 p2 plen aad2 alen2 c2 t2
           = Some (AESGCMSIV_SUCCESS, c2', Some tag2)"
  shows "take 16 tag1 = take 16 tag2
           \<and> take 16 tag1 = map (\<lambda>j. k1 ! j + n ! (j mod 12) + ucast plen) [0..<16]"
proof -
  obtain d1 where 1: "tag_loop k1 n plen 0 d1 = Some tag1"
    using mock_encrypt_SUCCESS[OF assms(2)] by auto
  obtain d2 where 2: "tag_loop k2 n plen 0 d2 = Some tag2"
    using mock_encrypt_SUCCESS[OF assms(3)] by auto
  have e: "map (expected_tag k1 n plen) [0..<16] = map (expected_tag k2 n plen) [0..<16]"
    using take_nth_eq[OF assms(1)] by (simp add: expected_tag_def)
  have f: "map (expected_tag k1 n plen) [0..<16]
             = map (\<lambda>j. k1 ! j + n ! (j mod 12) + ucast plen) [0..<16]"
    by (simp add: expected_tag_def tag_byte_eq)
  from tag_loop_result[OF 1] tag_loop_result[OF 2] e f show ?thesis
    by simp
qed

theorem mock_tag_ignores_plaintext_witness:
  "take 16 test_tag = take 16 test_tag
     \<and> take 16 test_tag = map (\<lambda>j. test_key ! j + test_nonce ! (j mod 12) + ucast (5 :: size_t)) [0..<16]"
proof -
  have s: "mock_aesgcmsiv_encrypt (Some test_key) 32 (Some test_nonce) 12 (Some [1, 2, 3, 4, 5]) 5
             (Some [9]) 1 (Some (replicate 8 0)) (Some (replicate 16 7))
           = Some (AESGCMSIV_SUCCESS, Some [2, 1, 0, 7, 6, 0, 0, 0], Some test_tag)"
    by code_simp
  show ?thesis
    by (rule mock_tag_ignores_plaintext[OF refl test_seal s])
qed

text \<open>
  C6 (determinism, test double). Two calls of Seal with the same key, nonce, plaintext
  and aad return the same code, whatever the output buffers held before; when the code
  is success, the \<open>plen\<close> ciphertext bytes and the 16 tag bytes written are the same.
\<close>

theorem mock_deterministic:
  assumes "mock_aesgcmsiv_encrypt key key_len nonce nonce_len plaintext plen aad alen (Some c1) (Some t1)
             = Some (rc1, Some c1', Some t1')"
    and "mock_aesgcmsiv_encrypt key key_len nonce nonce_len plaintext plen aad alen (Some c2) (Some t2)
             = Some (rc2, Some c2', Some t2')"
  shows "rc1 = rc2
           \<and> (rc1 = AESGCMSIV_SUCCESS \<longrightarrow>
                take (unat plen) c1' = take (unat plen) c2' \<and> take 16 t1' = take 16 t2')"
proof -
  consider (key) "key = None \<or> unat key_len \<noteq> 32"
    | (nonce) "key \<noteq> None" "unat key_len = 32" "nonce = None \<or> unat nonce_len \<noteq> 12"
    | (input) "key \<noteq> None" "unat key_len = 32" "nonce \<noteq> None" "unat nonce_len = 12"
        "plaintext = None \<or> (aad \<noteq> None \<and> alen = 0)"
    | (run) "key \<noteq> None" "unat key_len = 32" "nonce \<noteq> None" "unat nonce_len = 12"
        "plaintext \<noteq> None" "aad = None \<or> alen \<noteq> 0"
    by argo
  then show ?thesis
  proof cases
    case key
    from mock_encrypt_invalid_key[OF key] assms show ?thesis
      by (simp add: status_defs)
  next
    case nonce
    from mock_encrypt_invalid_nonce[OF nonce] assms show ?thesis
      by (simp add: status_defs)
  next
    case input
    then have "plaintext = None \<or> Some c1 = None \<or> Some t1 = None \<or> (aad \<noteq> None \<and> alen = 0)"
        "plaintext = None \<or> Some c2 = None \<or> Some t2 = None \<or> (aad \<noteq> None \<and> alen = 0)"
      by simp_all
    from mock_encrypt_invalid_input[OF input(1-4) this(1)]
      mock_encrypt_invalid_input[OF input(1-4) this(2)] assms show ?thesis
      by (simp add: status_defs)
  next
    case run
    then obtain k n p where v: "key = Some k" "nonce = Some n" "plaintext = Some p"
      by auto
    have 1: "do { c \<leftarrow> xor_loop k n p (unat plen) 0 c1; t \<leftarrow> tag_loop k n plen 0 t1;
                  Some (AESGCMSIV_SUCCESS, Some c, Some t) } = Some (rc1, Some c1', Some t1')"
      using assms(1) v mock_encrypt_run[OF run(2,4,6), of k n p plen c1 t1] by simp
    have 2: "do { c \<leftarrow> xor_loop k n p (unat plen) 0 c2; t \<leftarrow> tag_loop k n plen 0 t2;
                  Some (AESGCMSIV_SUCCESS, Some c, Some t) } = Some (rc2, Some c2', Some t2')"
      using assms(2) v mock_encrypt_run[OF run(2,4,6), of k n p plen c2 t2] by simp
    from 1 have r1: "rc1 = AESGCMSIV_SUCCESS" "xor_loop k n p (unat plen) 0 c1 = Some c1'"
        "tag_loop k n plen 0 t1 = Some t1'"
      by (auto split: bind_splits)
    from 2 have r2: "rc2 = AESGCMSIV_SUCCESS" "xor_loop k n p (unat plen) 0 c2 = Some c2'"
        "tag_loop k n plen 0 t2 = Some t2'"
      by (auto split: bind_splits)
    from r1(1) r2(1) xor_loop_result[OF r1(2)] xor_loop_result[OF r2(2)]
      tag_loop_result[OF r1(3)] tag_loop_result[OF r2(3)]
    show ?thesis
      by simp
  qed
qed

theorem mock_deterministic_witness:
  "take (unat (5 :: size_t)) test_ciphertext = take (unat (5 :: size_t)) [107, 102, 111, 111, 108, 9]
     \<and> take 16 test_tag = take 16 (replicate 16 8 @ [7])"
proof -
  have s: "mock_aesgcmsiv_encrypt (Some test_key) 32 (Some test_nonce) 12 (Some test_plaintext) 5 None 0
             (Some (replicate 6 9)) (Some (replicate 17 7))
           = Some (AESGCMSIV_SUCCESS, Some [107, 102, 111, 111, 108, 9], Some (replicate 16 8 @ [7]))"
    by code_simp
  show ?thesis
    by (rule mock_deterministic[OF test_seal s, THEN conjunct2, THEN mp, OF refl])
qed

text \<open>
  C3 (validation order, both backends). When the ordered checks of the specification
  (key, then nonce, then the three required buffers) have a first failing check, Seal
  and Open of the test double and of the OpenSSL adapter return that check's error,
  whatever the other arguments are, and leave the output buffers as they were.
\<close>

theorem validation_order:
  assumes "first_failing_check key key_len nonce nonce_len buf1 buf2 buf3 = Some e"
  shows "mock_aesgcmsiv_encrypt key key_len nonce nonce_len buf1 plen aad alen buf2 buf3
           = Some (e, buf2, buf3)
       \<and> mock_aesgcmsiv_decrypt key key_len nonce nonce_len buf1 clen aad alen buf2 buf3
           = Some (e, buf3)
       \<and> aesgcmsiv_encrypt ossl key key_len nonce nonce_len buf1 plen aad alen buf2 buf3
           = (e, buf2, buf3)
       \<and> aesgcmsiv_decrypt ossl key key_len nonce nonce_len buf1 clen aad alen buf2 buf3
           = (e, buf3)"
proof (intro conjI)
  show "mock_aesgcmsiv_encrypt key key_len nonce nonce_len buf1 plen aad alen buf2 buf3
          = Some (e, buf2, buf3)"
    by (rule mock_encrypt_first_failing_check[OF assms])
  show "mock_aesgcmsiv_decrypt key key_len nonce nonce_len buf1 clen aad alen buf2 buf3
          = Some (e, buf3)"
    by (rule mock_decrypt_first_failing_check[OF assms])
  show "aesgcmsiv_encrypt ossl key key_len nonce nonce_len buf1 plen aad alen buf2 buf3
          = (e, buf2, buf3)"
    by (rule aesgcmsiv_encrypt_first_failing_check[OF assms])
  show "aesgcmsiv_decrypt ossl key key_len nonce nonce_len buf1 clen aad alen buf2 buf3
          = (e, buf3)"
    by (rule aesgcmsiv_decrypt_first_failing_check[OF assms])
qed

theorem validation_order_witness:
  "mock_aesgcmsiv_encrypt (Some (replicate 31 0)) 31 (Some (replicate 11 0)) 11 (Some []) 0 None 0
       (Some []) (Some (replicate 16 0))
     = Some (AESGCMSIV_ERROR_INVALID_KEY, Some [], Some (replicate 16 0))
   \<and> mock_aesgcmsiv_decrypt (Some (replicate 31 0)) 31 (Some (replicate 11 0)) 11 (Some []) 0 None 0
       (Some []) (Some (replicate 16 0))
     = Some (AESGCMSIV_ERROR_INVALID_KEY, Some (replicate 16 0))
   \<and> aesgcmsiv_encrypt no_openssl (Some (replicate 31 0)) 31 (Some (replicate 11 0)) 11 (Some []) 0
       None 0 (Some []) (Some (replicate 16 0))
     = (AESGCMSIV_ERROR_INVALID_KEY, Some [], Some (replicate 16 0))
   \<and> aesgcmsiv_decrypt no_openssl (Some (replicate 31 0)) 31 (Some (replicate 11 0)) 11 (Some []) 0
       None 0 (Some []) (Some (replicate 16 0))
     = (AESGCMSIV_ERROR_INVALID_KEY, Some (replicate 16 0))"
proof -
  have "first_failing_check (Some (replicate 31 0)) 31 (Some (replicate 11 0)) 11 (Some [])
          (Some []) (Some (replicate 16 0)) = Some AESGCMSIV_ERROR_INVALID_KEY"
    by (simp add: first_failing_check_def)
  then show ?thesis
    by (rule validation_order)
qed

text \<open>
  C5 (validation failure writes nothing, both backends). When Seal or Open returns
  \<open>InvalidKey\<close>, \<open>InvalidNonce\<close> or \<open>InvalidInput\<close>, every output buffer is as it was
  before the call.
\<close>

theorem validation_failure_writes_nothing:
  assumes "rc = AESGCMSIV_ERROR_INVALID_KEY \<or> rc = AESGCMSIV_ERROR_INVALID_NONCE
             \<or> rc = AESGCMSIV_ERROR_INVALID_INPUT"
  shows "(mock_aesgcmsiv_encrypt key key_len nonce nonce_len plaintext plen aad alen ciphertext_out tag_out
            = Some (rc, c', t') \<longrightarrow> c' = ciphertext_out \<and> t' = tag_out)
       \<and> (mock_aesgcmsiv_decrypt key key_len nonce nonce_len ciphertext clen aad alen tag plaintext_out
            = Some (rc, p') \<longrightarrow> p' = plaintext_out)
       \<and> (aesgcmsiv_encrypt ossl key key_len nonce nonce_len plaintext plen aad alen ciphertext_out tag_out
            = (rc, c', t') \<longrightarrow> c' = ciphertext_out \<and> t' = tag_out)
       \<and> (aesgcmsiv_decrypt ossl key key_len nonce nonce_len ciphertext clen aad alen tag plaintext_out
            = (rc, p') \<longrightarrow> p' = plaintext_out)"
proof -
  from assms have n: "rc \<noteq> AESGCMSIV_SUCCESS" "rc \<noteq> AESGCMSIV_ERROR_INTERNAL"
      "rc \<noteq> AESGCMSIV_ERROR_INVALID_TAG" "rc \<noteq> AESGCMSIV_ERROR_DECRYPT_FAILED"
    by (auto simp: status_defs)
  show ?thesis
  proof (intro conjI impI)
    assume a: "mock_aesgcmsiv_encrypt key key_len nonce nonce_len plaintext plen aad alen ciphertext_out tag_out
            = Some (rc, c', t')"
    from mock_encrypt_code[OF a] n show "c' = ciphertext_out" "t' = tag_out"
      by simp_all
  next
    assume a: "mock_aesgcmsiv_decrypt key key_len nonce nonce_len ciphertext clen aad alen tag plaintext_out
            = Some (rc, p')"
    from mock_decrypt_code[OF a] n show "p' = plaintext_out"
      by simp
  next
    assume a: "aesgcmsiv_encrypt ossl key key_len nonce nonce_len plaintext plen aad alen ciphertext_out tag_out
            = (rc, c', t')"
    from aesgcmsiv_encrypt_code[OF a] n show "c' = ciphertext_out" "t' = tag_out"
      by simp_all
  next
    assume a: "aesgcmsiv_decrypt ossl key key_len nonce nonce_len ciphertext clen aad alen tag plaintext_out
            = (rc, p')"
    from aesgcmsiv_decrypt_code[OF a] n show "p' = plaintext_out"
      by simp
  qed
qed

theorem validation_failure_writes_nothing_witness:
  "mock_aesgcmsiv_encrypt None 0 None 0 None 0 None 0 (Some [1, 2]) (Some [3])
     = Some (AESGCMSIV_ERROR_INVALID_KEY, Some [1, 2], Some [3])
   \<and> mock_aesgcmsiv_decrypt None 0 None 0 None 0 None 0 None (Some [4])
     = Some (AESGCMSIV_ERROR_INVALID_KEY, Some [4])
   \<and> aesgcmsiv_encrypt no_openssl None 0 None 0 None 0 None 0 (Some [1, 2]) (Some [3])
     = (AESGCMSIV_ERROR_INVALID_KEY, Some [1, 2], Some [3])
   \<and> aesgcmsiv_decrypt no_openssl None 0 None 0 None 0 None 0 None (Some [4])
     = (AESGCMSIV_ERROR_INVALID_KEY, Some [4])"
proof -
  have r: "AESGCMSIV_ERROR_INVALID_KEY = AESGCMSIV_ERROR_INVALID_KEY
             \<or> AESGCMSIV_ERROR_INVALID_KEY = AESGCMSIV_ERROR_INVALID_NONCE
             \<or> AESGCMSIV_ERROR_INVALID_KEY = AESGCMSIV_ERROR_INVALID_INPUT"
    by simp
  have h1: "mock_aesgcmsiv_encrypt None 0 None 0 None 0 None 0 (Some [1, 2]) (Some [3])
              = Some (AESGCMSIV_ERROR_INVALID_KEY, Some [1, 2], Some [3])"
    by (simp add: mock_aesgcmsiv_encrypt_def)
  have h2: "mock_aesgcmsiv_decrypt None 0 None 0 None 0 None 0 None (Some [4])
              = Some (AESGCMSIV_ERROR_INVALID_KEY, Some [4])"
    by (simp add: mock_aesgcmsiv_decrypt_def)
  have h3: "aesgcmsiv_encrypt no_openssl None 0 None 0 None 0 None 0 (Some [1, 2]) (Some [3])
              = (AESGCMSIV_ERROR_INVALID_KEY, Some [1, 2], Some [3])"
    by (simp add: aesgcmsiv_encrypt_def validate_encrypt_params_def status_defs)
  have h4: "aesgcmsiv_decrypt no_openssl None 0 None 0 None 0 None 0 None (Some [4])
              = (AESGCMSIV_ERROR_INVALID_KEY, Some [4])"
    by (simp add: aesgcmsiv_decrypt_def validate_decrypt_params_def status_defs)
  note w = validation_failure_writes_nothing[OF r]
  have "Some [1, 2] = (Some [1, 2] :: ptr) \<and> Some [3] = (Some [3] :: ptr)"
    by (rule w[THEN conjunct1, THEN mp, OF h1])
  moreover have "Some [4] = (Some [4] :: ptr)"
    by (rule w[THEN conjunct2, THEN conjunct1, THEN mp, OF h2])
  moreover have "Some [1, 2] = (Some [1, 2] :: ptr) \<and> Some [3] = (Some [3] :: ptr)"
    by (rule w[THEN conjunct2, THEN conjunct2, THEN conjunct1, THEN mp, OF h3])
  moreover have "Some [4] = (Some [4] :: ptr)"
    by (rule w[THEN conjunct2, THEN conjunct2, THEN conjunct2, THEN mp, OF h4])
  ultimately show ?thesis
    using h1 h2 h3 h4 by simp
qed

text \<open>
  C2 (tamper detection, test double), as amended. After a successful Seal under a
  32-byte key and a 12-byte nonce, Open returns \<open>DecryptFailed\<close> when one bit of the
  16 tag bytes, of the nonce or of the first 16 key bytes has been flipped. A flipped
  bit of the ciphertext, of the aad or of key bytes 16 to 31 is not detected: Open
  returns success.
\<close>

theorem mock_tamper_detection:
  assumes "length k = 32" "length n = 12" "unat plen \<le> length p0"
    and "mock_aesgcmsiv_encrypt (Some k) 32 (Some n) 12 (Some p) plen aad alen c_out t_out
           = Some (AESGCMSIV_SUCCESS, Some c, Some t)"
    and "b < 8" "jt < 16" "jn < 12" "jk < 16"
  shows "(\<exists>r. mock_aesgcmsiv_decrypt (Some k) 32 (Some n) 12 (Some c) plen aad alen
                (Some (flip_bit_at t jt b)) (Some p0)
              = Some (AESGCMSIV_ERROR_DECRYPT_FAILED, r))
       \<and> (\<exists>r. mock_aesgcmsiv_decrypt (Some k) 32 (Some (flip_bit_at n jn b)) 12 (Some c) plen aad alen
                (Some t) (Some p0)
              = Some (AESGCMSIV_ERROR_DECRYPT_FAILED, r))
       \<and> (\<exists>r. mock_aesgcmsiv_decrypt (Some (flip_bit_at k jk b)) 32 (Some n) 12 (Some c) plen aad alen
                (Some t) (Some p0)
              = Some (AESGCMSIV_ERROR_DECRYPT_FAILED, r))
       \<and> (jc < unat plen \<longrightarrow>
            (\<exists>r. mock_aesgcmsiv_decrypt (Some k) 32 (Some n) 12 (Some (flip_bit_at c jc b)) plen aad alen
                (Some t) (Some p0)
              = Some (AESGCMSIV_SUCCESS, r)))
       \<and> (16 \<le> jk' \<and> jk' < 32 \<longrightarrow>
            (\<exists>r. mock_aesgcmsiv_decrypt (Some (flip_bit_at k jk' b)) 32 (Some n) 12 (Some c) plen aad alen
                (Some t) (Some p0)
              = Some (AESGCMSIV_SUCCESS, r)))
       \<and> (aad = Some a \<and> ja < length a \<longrightarrow>
            (\<exists>r. mock_aesgcmsiv_decrypt (Some k) 32 (Some n) 12 (Some c) plen
                (Some (flip_bit_at a ja b)) alen (Some t) (Some p0)
              = Some (AESGCMSIV_SUCCESS, r)))"
proof -
  have o: "unat plen \<le> length c" "16 \<le> length t" "aad = None \<or> alen \<noteq> 0"
    and tg: "\<forall>j<16. t ! j = expected_tag k n plen j"
    using mock_seal_outputs[OF assms(4)] by simp_all
  have lt: "16 \<le> length (flip_bit_at t jt b)" and ln: "length (flip_bit_at n jn b) = 12"
    and lk: "length (flip_bit_at k jk b) = 32" "length (flip_bit_at k jk' b) = 32"
    and lc: "unat plen \<le> length (flip_bit_at c jc b)"
    using o assms(1,2) by (simp_all only: flip_bit_at_length)
  have 1: "\<exists>r. mock_aesgcmsiv_decrypt (Some k) 32 (Some n) 12 (Some c) plen aad alen
                (Some (flip_bit_at t jt b)) (Some p0)
              = Some (AESGCMSIV_ERROR_DECRYPT_FAILED, r)"
  proof -
    have "jt < length t"
      using assms(6) o(2) by simp
    then have "flip_bit_at t jt b ! jt = flip_bit b (t ! jt)"
      by (rule flip_bit_at_same)
    moreover have "t ! jt = expected_tag k n plen jt"
      using tg assms(6) by blast
    ultimately have "flip_bit_at t jt b ! jt \<noteq> expected_tag k n plen jt"
      using flip_bit_differs[OF assms(5), of "t ! jt"] by simp
    from open_detects[OF assms(1,2) o(1) assms(3) lt o(3) assms(6) this] show ?thesis .
  qed
  have 2: "\<exists>r. mock_aesgcmsiv_decrypt (Some k) 32 (Some (flip_bit_at n jn b)) 12 (Some c) plen aad alen
                (Some t) (Some p0)
              = Some (AESGCMSIV_ERROR_DECRYPT_FAILED, r)"
  proof -
    have jn: "jn < length n" "jn mod 12 = jn" "jn < 16"
      using assms(2,7) by simp_all
    have "flip_bit_at n jn b ! jn = flip_bit b (n ! jn)"
      using jn(1) by (rule flip_bit_at_same)
    then have "flip_bit_at n jn b ! jn \<noteq> n ! jn"
      using flip_bit_differs[OF assms(5), of "n ! jn"] by simp
    then have "expected_tag k (flip_bit_at n jn b) plen jn \<noteq> expected_tag k n plen jn"
      using tag_byte_inj_nonce[of "k ! jn" "flip_bit_at n jn b ! jn" plen "n ! jn"]
      by (auto simp: expected_tag_def jn(2))
    moreover have "t ! jn = expected_tag k n plen jn"
      using tg jn(3) by blast
    ultimately have "t ! jn \<noteq> expected_tag k (flip_bit_at n jn b) plen jn"
      by simp
    from open_detects[OF assms(1) ln o(1) assms(3) o(2,3) jn(3) this] show ?thesis .
  qed
  have 3: "\<exists>r. mock_aesgcmsiv_decrypt (Some (flip_bit_at k jk b)) 32 (Some n) 12 (Some c) plen aad alen
                (Some t) (Some p0)
              = Some (AESGCMSIV_ERROR_DECRYPT_FAILED, r)"
  proof -
    have jk: "jk < length k"
      using assms(1,8) by simp
    have "flip_bit_at k jk b ! jk = flip_bit b (k ! jk)"
      using jk by (rule flip_bit_at_same)
    then have "flip_bit_at k jk b ! jk \<noteq> k ! jk"
      using flip_bit_differs[OF assms(5), of "k ! jk"] by simp
    then have "expected_tag (flip_bit_at k jk b) n plen jk \<noteq> expected_tag k n plen jk"
      using tag_byte_inj_key[of "flip_bit_at k jk b ! jk" "n ! (jk mod 12)" plen "k ! jk"]
      by (auto simp: expected_tag_def)
    moreover have "t ! jk = expected_tag k n plen jk"
      using tg assms(8) by blast
    ultimately have "t ! jk \<noteq> expected_tag (flip_bit_at k jk b) n plen jk"
      by simp
    from open_detects[OF lk(1) assms(2) o(1) assms(3) o(2,3) assms(8) this] show ?thesis .
  qed
  have 4: "\<exists>r. mock_aesgcmsiv_decrypt (Some k) 32 (Some n) 12 (Some (flip_bit_at c jc b)) plen aad alen
                (Some t) (Some p0)
              = Some (AESGCMSIV_SUCCESS, r)"
    by (rule open_accepts[OF assms(1,2) lc assms(3) o(2,3) tg])
  have 5: "\<exists>r. mock_aesgcmsiv_decrypt (Some (flip_bit_at k jk' b)) 32 (Some n) 12 (Some c) plen aad alen
                (Some t) (Some p0)
              = Some (AESGCMSIV_SUCCESS, r)" if "16 \<le> jk'"
  proof -
    have "\<forall>j<16. expected_tag (flip_bit_at k jk' b) n plen j = expected_tag k n plen j"
      using that by (simp add: expected_tag_def flip_bit_at_other)
    with tg have "\<forall>j<16. t ! j = expected_tag (flip_bit_at k jk' b) n plen j"
      by simp
    from open_accepts[OF lk(2) assms(2) o(1) assms(3) o(2,3) this] show ?thesis .
  qed
  have 6: "\<exists>r. mock_aesgcmsiv_decrypt (Some k) 32 (Some n) 12 (Some c) plen
                (Some (flip_bit_at a ja b)) alen (Some t) (Some p0)
              = Some (AESGCMSIV_SUCCESS, r)" if "aad = Some a"
  proof -
    from that o(3) have "Some (flip_bit_at a ja b) = None \<or> alen \<noteq> 0"
      by simp
    from open_accepts[OF assms(1,2) o(1) assms(3) o(2) this tg] show ?thesis .
  qed
  from 1 2 3 4 5 6 show ?thesis
    by blast
qed


theorem mock_tamper_detection_witness:
  "(\<exists>r. mock_aesgcmsiv_decrypt (Some test_key) 32 (Some test_nonce) 12 (Some test_ciphertext) 5
          (Some [7]) 1 (Some (flip_bit_at test_tag 0 0)) (Some (replicate 5 0))
        = Some (AESGCMSIV_ERROR_DECRYPT_FAILED, r))
   \<and> (\<exists>r. mock_aesgcmsiv_decrypt (Some test_key) 32 (Some (flip_bit_at test_nonce 0 0)) 12
          (Some test_ciphertext) 5 (Some [7]) 1 (Some test_tag) (Some (replicate 5 0))
        = Some (AESGCMSIV_ERROR_DECRYPT_FAILED, r))
   \<and> (\<exists>r. mock_aesgcmsiv_decrypt (Some (flip_bit_at test_key 0 0)) 32 (Some test_nonce) 12
          (Some test_ciphertext) 5 (Some [7]) 1 (Some test_tag) (Some (replicate 5 0))
        = Some (AESGCMSIV_ERROR_DECRYPT_FAILED, r))
   \<and> (\<exists>r. mock_aesgcmsiv_decrypt (Some test_key) 32 (Some test_nonce) 12
          (Some (flip_bit_at test_ciphertext 0 0)) 5 (Some [7]) 1 (Some test_tag) (Some (replicate 5 0))
        = Some (AESGCMSIV_SUCCESS, r))
   \<and> (\<exists>r. mock_aesgcmsiv_decrypt (Some (flip_bit_at test_key 16 0)) 32 (Some test_nonce) 12
          (Some test_ciphertext) 5 (Some [7]) 1 (Some test_tag) (Some (replicate 5 0))
        = Some (AESGCMSIV_SUCCESS, r))
   \<and> (\<exists>r. mock_aesgcmsiv_decrypt (Some test_key) 32 (Some test_nonce) 12 (Some test_ciphertext) 5
          (Some (flip_bit_at [7] 0 0)) 1 (Some test_tag) (Some (replicate 5 0))
        = Some (AESGCMSIV_SUCCESS, r))"
proof -
  have s: "mock_aesgcmsiv_encrypt (Some test_key) 32 (Some test_nonce) 12 (Some test_plaintext) 5
             (Some [7]) 1 (Some (replicate 5 0)) (Some (replicate 16 0))
           = Some (AESGCMSIV_SUCCESS, Some test_ciphertext, Some test_tag)"
    by code_simp
  have l: "length test_key = 32" "length test_nonce = 12"
      "unat (5 :: size_t) \<le> length (replicate 5 (0 :: byte))"
    by (simp_all add: test_key_def test_nonce_def)
  have i: "(0 :: nat) < 8" "(0 :: nat) < 16" "(0 :: nat) < 12" "(0 :: nat) < 16"
    by simp_all
  note w = mock_tamper_detection[where jc = 0 and jk' = 16 and a = "[7]" and ja = 0, OF l s i]
  have 4: "0 < unat (5 :: size_t)"
    by simp
  have 5: "(16 :: nat) \<le> 16 \<and> (16 :: nat) < 32"
    by simp
  have 6: "Some [7] = Some [7 :: byte] \<and> 0 < length [7 :: byte]"
    by simp
  show ?thesis
    using w[THEN conjunct1] w[THEN conjunct2, THEN conjunct1]
      w[THEN conjunct2, THEN conjunct2, THEN conjunct1]
      w[THEN conjunct2, THEN conjunct2, THEN conjunct2, THEN conjunct1, THEN mp, OF 4]
      w[THEN conjunct2, THEN conjunct2, THEN conjunct2, THEN conjunct2, THEN conjunct1, THEN mp, OF 5]
      w[THEN conjunct2, THEN conjunct2, THEN conjunct2, THEN conjunct2, THEN conjunct2, THEN mp, OF 6]
    by (intro conjI)
qed

text \<open>
  The claim as first stated fails: Seal of \<^verbatim>\<open>hello\<close>, then Open on the ciphertext with
  bit 0 of its first byte flipped, returns success, with a plaintext that differs in
  that bit.
\<close>

theorem mock_tamper_undetected:
  "mock_aesgcmsiv_encrypt (Some test_key) 32 (Some test_nonce) 12 (Some test_plaintext) 5 None 0
       (Some (replicate 5 0)) (Some (replicate 16 0))
     = Some (AESGCMSIV_SUCCESS, Some test_ciphertext, Some test_tag)
   \<and> flip_bit_at test_ciphertext 0 0 = [106, 102, 111, 111, 108]
   \<and> mock_aesgcmsiv_decrypt (Some test_key) 32 (Some test_nonce) 12
       (Some (flip_bit_at test_ciphertext 0 0)) 5 None 0 (Some test_tag) (Some (replicate 5 0))
     = Some (AESGCMSIV_SUCCESS, Some [105, 101, 108, 108, 111])
   \<and> AESGCMSIV_SUCCESS \<notin> {AESGCMSIV_ERROR_DECRYPT_FAILED, AESGCMSIV_ERROR_INVALID_KEY,
         AESGCMSIV_ERROR_INVALID_NONCE, AESGCMSIV_ERROR_INVALID_INPUT}"
proof (intro conjI)
  show "mock_aesgcmsiv_encrypt (Some test_key) 32 (Some test_nonce) 12 (Some test_plaintext) 5 None 0
       (Some (replicate 5 0)) (Some (replicate 16 0))
     = Some (AESGCMSIV_SUCCESS, Some test_ciphertext, Some test_tag)"
    by code_simp
  show "flip_bit_at test_ciphertext 0 0 = [106, 102, 111, 111, 108]"
    by code_simp
  show "mock_aesgcmsiv_decrypt (Some test_key) 32 (Some test_nonce) 12
       (Some (flip_bit_at test_ciphertext 0 0)) 5 None 0 (Some test_tag) (Some (replicate 5 0))
     = Some (AESGCMSIV_SUCCESS, Some [105, 101, 108, 108, 111])"
    by code_simp
  show "AESGCMSIV_SUCCESS \<notin> {AESGCMSIV_ERROR_DECRYPT_FAILED, AESGCMSIV_ERROR_INVALID_KEY,
         AESGCMSIV_ERROR_INVALID_NONCE, AESGCMSIV_ERROR_INVALID_INPUT}"
    by (simp add: status_defs)
qed

text \<open>
  C4 (a present, zero-length aad). The OpenSSL adapter treats it as an absent aad. The
  test double does not: with a valid key, nonce and buffers and a non-null aad pointer
  of length 0, its Seal and its Open return \<open>InvalidInput\<close> and write nothing, while
  the same calls with a null aad succeed.
\<close>

theorem mock_rejects_empty_aad:
  "mock_aesgcmsiv_encrypt (Some test_key) 32 (Some test_nonce) 12 (Some test_plaintext) 5 (Some []) 0
       (Some (replicate 5 0)) (Some (replicate 16 0))
     = Some (AESGCMSIV_ERROR_INVALID_INPUT, Some (replicate 5 0), Some (replicate 16 0))
   \<and> mock_aesgcmsiv_encrypt (Some test_key) 32 (Some test_nonce) 12 (Some test_plaintext) 5 None 0
       (Some (replicate 5 0)) (Some (replicate 16 0))
     = Some (AESGCMSIV_SUCCESS, Some test_ciphertext, Some test_tag)
   \<and> mock_aesgcmsiv_decrypt (Some test_key) 32 (Some test_nonce) 12 (Some test_ciphertext) 5 (Some []) 0
       (Some test_tag) (Some (replicate 5 0))
     = Some (AESGCMSIV_ERROR_INVALID_INPUT, Some (replicate 5 0))
   \<and> mock_aesgcmsiv_decrypt (Some test_key) 32 (Some test_nonce) 12 (Some test_ciphertext) 5 None 0
       (Some test_tag) (Some (replicate 5 0))
     = Some (AESGCMSIV_SUCCESS, Some test_plaintext)"
proof (intro conjI)
  show "mock_aesgcmsiv_encrypt (Some test_key) 32 (Some test_nonce) 12 (Some test_plaintext) 5 (Some []) 0
       (Some (replicate 5 0)) (Some (replicate 16 0))
     = Some (AESGCMSIV_ERROR_INVALID_INPUT, Some (replicate 5 0), Some (replicate 16 0))"
    by (rule mock_encrypt_invalid_input) simp_all
  show "mock_aesgcmsiv_encrypt (Some test_key) 32 (Some test_nonce) 12 (Some test_plaintext) 5 None 0
       (Some (replicate 5 0)) (Some (replicate 16 0))
     = Some (AESGCMSIV_SUCCESS, Some test_ciphertext, Some test_tag)"
    by (rule test_seal)
  show "mock_aesgcmsiv_decrypt (Some test_key) 32 (Some test_nonce) 12 (Some test_ciphertext) 5 (Some []) 0
       (Some test_tag) (Some (replicate 5 0))
     = Some (AESGCMSIV_ERROR_INVALID_INPUT, Some (replicate 5 0))"
    by (rule mock_decrypt_invalid_input) simp_all
  show "mock_aesgcmsiv_decrypt (Some test_key) 32 (Some test_nonce) 12 (Some test_ciphertext) 5 None 0
       (Some test_tag) (Some (replicate 5 0))
     = Some (AESGCMSIV_SUCCESS, Some test_plaintext)"
    by (rule test_open)
qed

end
